theory Spec2Isabelle
  imports Complex_Main "HOL-Library.Word" "HOL-Library.Sublist"
begin

section \<open>The measurement engine of speedtest.js\<close>

text \<open>
  The development follows \<^verbatim>\<open>src/speedtest.js\<close>: the server catalog, the request primitive
  \<^verbatim>\<open>makeRequest\<close>, the latency probe \<^verbatim>\<open>pingTest\<close>, the per-target runner
  \<^verbatim>\<open>testServer\<close>, the programmatic entry point \<^verbatim>\<open>SpeedTest.run\<close> and the
  aggregation of \<^verbatim>\<open>displayStatistics\<close>.

  Conventions of the embedding.
  \<^item> JavaScript numbers are real numbers (rounding is not modelled); the only non-finite
    values the code can name explicitly, the seeds of \<^verbatim>\<open>Math.max\<close> and
    \<^verbatim>\<open>Math.min\<close>, are kept in the type \<open>number\<close>.
  \<^item> \<^verbatim>\<open>null\<close> and \<^verbatim>\<open>undefined\<close> are \<open>None\<close>.
  \<^item> Readings of the clock are real numbers of milliseconds; a span of time that an event
    of the network takes is positive (type \<open>ms\<close>).
  \<^item> A promise is a value \<open>error + 'a\<close> (\<open>Inl\<close> is a rejection) paired with the reading
    of the clock when it settles, inside \<open>option\<close>: \<open>None\<close> is a promise that never settles.
  \<^item> Writes to the terminal are not part of the state.
\<close>

subsection \<open>Errors and JavaScript truthiness\<close>

datatype error = Error (message: string) | TypeError (message: string)

text \<open>\<^verbatim>\<open>!!s\<close> for a value that is a string or \<^verbatim>\<open>null\<close>: the empty string is falsy.\<close>

fun truthy :: "string option \<Rightarrow> bool" where
  "truthy None = False"
| "truthy (Some s) = (s \<noteq> [])"

text \<open>Decimal rendering of a non-negative integer inside a template literal.\<close>

definition digit :: "nat \<Rightarrow> char" where
  "digit d = ''0123456789'' ! d"

fun show_nat :: "nat \<Rightarrow> string" where
  "show_nat n = (if n < 10 then [digit n] else show_nat (n div 10) @ [digit (n mod 10)])"

declare show_nat.simps [simp del]

subsection \<open>The server catalog\<close>

record target =
  name :: string
  url :: string
  sizeMB :: nat

definition TEST_SERVERS :: "(string \<times> target list) list" where
  "TEST_SERVERS =
    [(''cloudflare'',
       [\<lparr>name = ''Cloudflare 10MB'', url = ''https://speed.cloudflare.com/__down?bytes=10485760'', sizeMB = 10\<rparr>,
        \<lparr>name = ''Cloudflare 100MB'', url = ''https://speed.cloudflare.com/__down?bytes=104857600'', sizeMB = 100\<rparr>]),
     (''cachefly'',
       [\<lparr>name = ''CacheFly 10MB'', url = ''http://cachefly.cachefly.net/10mb.test'', sizeMB = 10\<rparr>,
        \<lparr>name = ''CacheFly 100MB'', url = ''http://cachefly.cachefly.net/100mb.test'', sizeMB = 100\<rparr>]),
     (''linode'',
       [\<lparr>name = ''Linode London'', url = ''http://speedtest.london.linode.com/100MB-london.bin'', sizeMB = 100\<rparr>,
        \<lparr>name = ''Linode Newark'', url = ''http://speedtest.newark.linode.com/100MB-newark.bin'', sizeMB = 100\<rparr>,
        \<lparr>name = ''Linode Frankfurt'', url = ''http://speedtest.frankfurt.linode.com/100MB-frankfurt.bin'', sizeMB = 100\<rparr>,
        \<lparr>name = ''Linode Singapore'', url = ''http://speedtest.singapore.linode.com/100MB-singapore.bin'', sizeMB = 100\<rparr>]),
     (''vultr'',
       [\<lparr>name = ''Vultr Amsterdam'', url = ''https://ams-nl-ping.vultr.com/vultr.com.100MB.bin'', sizeMB = 100\<rparr>,
        \<lparr>name = ''Vultr Frankfurt'', url = ''https://fra-de-ping.vultr.com/vultr.com.100MB.bin'', sizeMB = 100\<rparr>,
        \<lparr>name = ''Vultr London'', url = ''https://lon-gb-ping.vultr.com/vultr.com.100MB.bin'', sizeMB = 100\<rparr>,
        \<lparr>name = ''Vultr Tokyo'', url = ''https://hnd-jp-ping.vultr.com/vultr.com.100MB.bin'', sizeMB = 100\<rparr>]),
     (''bunny'',
       [\<lparr>name = ''Bunny CDN 10MB'', url = ''https://test.b-cdn.net/10mb.bin'', sizeMB = 10\<rparr>,
        \<lparr>name = ''Bunny CDN 100MB'', url = ''https://test.b-cdn.net/100mb.bin'', sizeMB = 100\<rparr>]),
     (''scaleway'',
       [\<lparr>name = ''Scaleway Paris 10MB'', url = ''https://scaleway.testdebit.info/10M/10M.iso'', sizeMB = 100\<rparr>,
        \<lparr>name = ''Scaleway Paris 100MB'', url = ''https://scaleway.testdebit.info/100M/100M.iso'', sizeMB = 10\<rparr>]),
     (''ovh'',
       [\<lparr>name = ''OVH 10MB'', url = ''https://proof.ovh.net/files/10Mb.dat'', sizeMB = 10\<rparr>,
        \<lparr>name = ''OVH 100MB'', url = ''https://proof.ovh.net/files/100Mb.dat'', sizeMB = 100\<rparr>])]"

text \<open>
  \<^verbatim>\<open>TEST_SERVERS\<close> is an object literal, so \<^verbatim>\<open>TEST_SERVERS[key]\<close> also finds the
  properties of \<^verbatim>\<open>Object.prototype\<close>: eleven functions and the accessor
  \<^verbatim>\<open>__proto__\<close>. All of them are truthy and none is iterable.
\<close>

definition Object_prototype_keys :: "string list" where
  "Object_prototype_keys =
    [''constructor'', ''__defineGetter__'', ''__defineSetter__'', ''hasOwnProperty'',
     ''__lookupGetter__'', ''__lookupSetter__'', ''isPrototypeOf'', ''propertyIsEnumerable'',
     ''toString'', ''valueOf'', ''__proto__'', ''toLocaleString'']"

datatype property = Own "target list" | Inherited | Undefined

definition TEST_SERVERS_get :: "string \<Rightarrow> property" where
  "TEST_SERVERS_get key =
    (case map_of TEST_SERVERS key of
       Some servers \<Rightarrow> Own servers
     | None \<Rightarrow> if key \<in> set Object_prototype_keys then Inherited else Undefined)"

subsection \<open>The network and the clock\<close>

text \<open>
  A response chunk is a buffer of bytes. The transport handle is the proxy agent or
  \<^verbatim>\<open>null\<close>.
\<close>

type_synonym chunk = "8 word list"

datatype agent = SocksProxyAgent string

text \<open>
  A span of time in milliseconds between two readings of \<^verbatim>\<open>performance.now()\<close> that
  an event of the network separates. The clock is monotonic and resolves less than a
  microsecond, so a span is positive: the duration by which \<^verbatim>\<open>makeRequest\<close> divides is
  never zero, and the quotients are finite.
\<close>

typedef ms = "{t :: real. 0 < t}"
  morphisms millis Ms
  by (rule exI[of _ 1]) simp

text \<open>
  What one request through Node's \<^verbatim>\<open>http\<close>/\<^verbatim>\<open>https\<close> module does, as seen by the
  handlers \<^verbatim>\<open>makeRequest\<close> installs. The first field of each constructor but
  \<open>InvalidURL\<close> is the time from the start of \<^verbatim>\<open>makeRequest\<close> to the event that
  settles the promise or starts the redirect.
  \<^item> \<open>InvalidURL\<close>: \<^verbatim>\<open>new URL(url)\<close> throws;
  \<^item> \<open>RequestError\<close>: the request emits \<^verbatim>\<open>error\<close> with this message;
  \<^item> \<open>RequestTimeout\<close>: the request emits \<^verbatim>\<open>timeout\<close> before any response;
  \<^item> \<open>Response\<close>: the response callback runs with this status code and
    \<^verbatim>\<open>Location\<close> header. When the callback reads the response, the \<^verbatim>\<open>data\<close>
    events deliver the chunks, then the stream ends, fails or stalls until the request's
    \<^verbatim>\<open>timeout\<close> event (\<open>stream_end\<close>). When the callback starts a redirect it
    installs no handler on the response and never reads it, while the handlers of
    \<^verbatim>\<open>req.on('error')\<close> and \<^verbatim>\<open>req.on('timeout')\<close> stay installed; the last field
    (\<open>unread\<close>) says what the request emits afterwards, and how long after the response:
    nothing when the server closes the connection (closing the socket clears its idle
    timer), \<^verbatim>\<open>timeout\<close> when the connection is kept alive and the socket idles for
    the length of the timeout, or \<^verbatim>\<open>error\<close>.
\<close>

datatype stream_end = End | StreamError string | StreamTimeout

datatype unread = Closed | IdleTimeout ms | LateError ms string

datatype reply =
    InvalidURL
  | RequestError ms string
  | RequestTimeout ms
  | Response ms nat "string option" "chunk list" stream_end unread

text \<open>
  The network answers a request for a URL through a transport handle with a timeout,
  issued at a reading of the clock (\<^verbatim>\<open>performance.now()\<close>, in milliseconds).
\<close>

type_synonym network = "real \<Rightarrow> string \<Rightarrow> agent option \<Rightarrow> nat \<Rightarrow> reply"

type_synonym 'a promise = "((error + 'a) \<times> real) option"

subsection \<open>makeRequest\<close>

record outcome =
  bytes :: nat
  duration :: real
  speedMbps :: real
  speedMBps :: real

text \<open>The \<^verbatim>\<open>data\<close> handler: \<^verbatim>\<open>totalBytes += chunk.length; chunks.push(chunk)\<close>.\<close>

fun on_data :: "chunk list \<Rightarrow> nat \<times> chunk list \<Rightarrow> nat \<times> chunk list" where
  "on_data [] (totalBytes, chunks) = (totalBytes, chunks)"
| "on_data (chunk # rest) (totalBytes, chunks) =
     on_data rest (totalBytes + length chunk, chunks @ [chunk])"

text \<open>
  The redirect test \<^verbatim>\<open>[301, 302, 307, 308].includes(res.statusCode) && res.headers.location\<close>:
  the target when the test succeeds. A missing or empty \<^verbatim>\<open>Location\<close> header is falsy.
\<close>

definition redirect_target :: "nat \<Rightarrow> string option \<Rightarrow> string option" where
  "redirect_target statusCode location =
     (if statusCode \<in> set [301, 302, 307, 308] \<and> truthy location then location else None)"

text \<open>
  In the redirect branch the promise of a call has two ways to settle, whichever comes
  first: \<^verbatim>\<open>makeRequest(location, agent, timeout).then(resolve).catch(reject)\<close>, the
  promise of the recursive call, and the handlers of its own request, which reject with
  \<^verbatim>\<open>Timeout\<close> or with the error when the request emits one of the two events after its
  unread response. A promise settles once, so the later of the two changes nothing; the
  recursive call itself goes on, unobserved.

  The embedding runs this race along the recursion. A call carries the rejection that is
  \<^emph>\<open>armed\<close> by the redirected requests before it, the earliest one, as the reading of the
  clock at which it fires and its error. An event of the current request that comes
  later than that reading finds the promise of the outermost call rejected already
  (\<open>overdue\<close>, \<open>settle\<close>); a redirect arms the event of its own request if that is
  earlier (\<open>first_armed\<close>, \<open>late_event\<close>). Lemma \<open>makeRequest_first_to_settle\<close> below
  states the race in the form of the source: the call for \<open>A\<close> settles as the earlier of
  the event of its request and the call for \<open>B\<close>. At equal readings of the clock the
  event of the later request is taken first. \<^verbatim>\<open>makeRequest\<close> itself starts with
  nothing armed.
\<close>

type_synonym armed = "(real \<times> error) option"

fun late_event :: "real \<Rightarrow> unread \<Rightarrow> armed" where
  "late_event now Closed = None"
| "late_event now (IdleTimeout idle) = Some (now + millis idle, Error ''Timeout'')"
| "late_event now (LateError after msg) = Some (now + millis after, Error msg)"

fun first_armed :: "armed \<Rightarrow> armed \<Rightarrow> armed" where
  "first_armed None later = later"
| "first_armed (Some (t, err)) None = Some (t, err)"
| "first_armed (Some (t, err)) (Some (t', err')) = (if t < t' then Some (t, err) else Some (t', err'))"

fun overdue :: "armed \<Rightarrow> real \<Rightarrow> ((error + 'a) \<times> real) option" where
  "overdue None now = None"
| "overdue (Some (t, err)) now = (if t < now then Some (Inl err, t) else None)"

definition settle :: "armed \<Rightarrow> (error + 'a) \<times> real \<Rightarrow> (error + 'a) \<times> real" where
  "settle armed r = (case overdue armed (snd r) of Some rejection \<Rightarrow> rejection | None \<Rightarrow> r)"

partial_function (option) makeRequest_armed ::
  "network \<Rightarrow> string \<Rightarrow> agent option \<Rightarrow> nat \<Rightarrow> armed \<Rightarrow> real \<Rightarrow> outcome promise"
where
  "makeRequest_armed net url' agent timeout armed startTime =
    (case net startTime url' agent timeout of
       InvalidURL \<Rightarrow> Some (settle armed (Inl (TypeError ''Invalid URL''), startTime))
     | RequestError elapsed msg \<Rightarrow>
         Some (settle armed (Inl (Error msg), startTime + millis elapsed))
     | RequestTimeout elapsed \<Rightarrow>
         Some (settle armed (Inl (Error ''Timeout''), startTime + millis elapsed))
     | Response elapsed statusCode location body ending unread \<Rightarrow>
         (case redirect_target statusCode location of
            Some target \<Rightarrow>
              (case overdue armed (startTime + millis elapsed) of
                 Some rejection \<Rightarrow> Some rejection
               | None \<Rightarrow>
                   makeRequest_armed net target agent timeout
                     (first_armed armed (late_event (startTime + millis elapsed) unread))
                     (startTime + millis elapsed))
          | None \<Rightarrow>
              if statusCode \<noteq> 200 \<and> statusCode \<noteq> 204 then
                Some (settle armed
                  (Inl (Error (''HTTP '' @ show_nat statusCode)), startTime + millis elapsed))
              else
                (case ending of
                   StreamError msg \<Rightarrow>
                     Some (settle armed (Inl (Error msg), startTime + millis elapsed))
                 | StreamTimeout \<Rightarrow>
                     Some (settle armed (Inl (Error ''Timeout''), startTime + millis elapsed))
                 | End \<Rightarrow>
                     let (totalBytes, chunks) = on_data body (0, []);
                         endTime = startTime + millis elapsed;
                         duration' = (endTime - startTime) / 1000
                     in Some (settle armed
                          (Inr \<lparr>bytes = totalBytes,
                                duration = duration',
                                speedMbps = real totalBytes * 8 / duration' / 1000000,
                                speedMBps = real totalBytes / duration' / 1048576\<rparr>,
                           endTime)))))"

declare makeRequest_armed.simps [code]

definition makeRequest :: "network \<Rightarrow> string \<Rightarrow> agent option \<Rightarrow> nat \<Rightarrow> real \<Rightarrow> outcome promise" where
  "makeRequest net url' agent timeout startTime =
     makeRequest_armed net url' agent timeout None startTime"

subsection \<open>pingTest and testServer\<close>

text \<open>
  \<^verbatim>\<open>pingTest\<close> awaits \<^verbatim>\<open>makeRequest(url, agent, 5000)\<close> inside \<^verbatim>\<open>try\<close>; the
  \<^verbatim>\<open>catch\<close> returns \<^verbatim>\<open>null\<close>.
\<close>

definition pingTest :: "network \<Rightarrow> string \<Rightarrow> agent option \<Rightarrow> real \<Rightarrow> real option promise" where
  "pingTest net url' agent startTime =
    (case makeRequest net url' agent 5000 startTime of
       None \<Rightarrow> None
     | Some (Inr _, endTime) \<Rightarrow> Some (Inr (Some (endTime - startTime)), endTime)
     | Some (Inl err, now) \<Rightarrow> Some (Inr None, now))"

record testResult = target +
  ping :: "real option"
  speedMbps :: real
  speedMBps :: real
  duration :: real
  error :: "string option"

text \<open>
  \<^verbatim>\<open>testServer\<close>. Both branches of \<^verbatim>\<open>showProgress\<close> await the same request with the
  default timeout and copy the same three fields; they differ in what they print. The
  \<^verbatim>\<open>catch\<close> stores \<^verbatim>\<open>err.message\<close>.
\<close>

definition testServer ::
  "network \<Rightarrow> target \<Rightarrow> agent option \<Rightarrow> bool \<Rightarrow> real \<Rightarrow> (testResult \<times> real) option"
where
  "testServer net server agent showProgress now =
    (let testResult = \<lparr>name = name server, url = url server, sizeMB = sizeMB server,
                        ping = None, speedMbps = 0, speedMBps = 0, duration = 0, error = None\<rparr>
     in case pingTest net (url server) agent now of
          None \<Rightarrow> None
        | Some (Inl err, now1) \<Rightarrow> Some (testResult\<lparr>error := Some (message err)\<rparr>, now1)
        | Some (Inr pingTime, now1) \<Rightarrow>
            let testResult = testResult\<lparr>ping := pingTime\<rparr>
            in if showProgress then
                 (case makeRequest net (url server) agent 30000 now1 of
                    None \<Rightarrow> None
                  | Some (Inl err, now2) \<Rightarrow> Some (testResult\<lparr>error := Some (message err)\<rparr>, now2)
                  | Some (Inr result, now2) \<Rightarrow>
                      Some (testResult\<lparr>speedMbps := outcome.speedMbps result,
                                        speedMBps := outcome.speedMBps result,
                                        duration := outcome.duration result\<rparr>, now2))
               else
                 (case makeRequest net (url server) agent 30000 now1 of
                    None \<Rightarrow> None
                  | Some (Inl err, now2) \<Rightarrow> Some (testResult\<lparr>error := Some (message err)\<rparr>, now2)
                  | Some (Inr result, now2) \<Rightarrow>
                      Some (testResult\<lparr>speedMbps := outcome.speedMbps result,
                                        speedMBps := outcome.speedMBps result,
                                        duration := outcome.duration result\<rparr>, now2)))"

subsection \<open>displayStatistics\<close>

text \<open>
  \<^verbatim>\<open>Math.max(...xs)\<close> and \<^verbatim>\<open>Math.min(...xs)\<close> start from
  \<^verbatim>\<open>-Infinity\<close> and \<^verbatim>\<open>Infinity\<close>.
\<close>

datatype number = Num real | PosInfinity | NegInfinity

fun Math_max :: "real list \<Rightarrow> number" where
  "Math_max [] = NegInfinity"
| "Math_max (x # xs) =
     (case Math_max xs of
        NegInfinity \<Rightarrow> Num x
      | PosInfinity \<Rightarrow> PosInfinity
      | Num m \<Rightarrow> Num (max x m))"

fun Math_min :: "real list \<Rightarrow> number" where
  "Math_min [] = PosInfinity"
| "Math_min (x # xs) =
     (case Math_min xs of
        PosInfinity \<Rightarrow> Num x
      | NegInfinity \<Rightarrow> NegInfinity
      | Num m \<Rightarrow> Num (min x m))"

text \<open>\<^verbatim>\<open>xs.reduce((a, b) => a + b, 0) / xs.length\<close>.\<close>

definition average :: "real list \<Rightarrow> real" where
  "average xs = foldl (\<lambda>a b. a + b) 0 xs / real (length xs)"

text \<open>
  The provider of a result: the first key of \<^verbatim>\<open>TEST_SERVERS\<close> whose list has a
  target of that name, or \<^verbatim>\<open>undefined\<close>.
\<close>

definition provider_of :: "string \<Rightarrow> string option" where
  "provider_of result_name =
     find (\<lambda>key. case map_of TEST_SERVERS key of
                      Some servers \<Rightarrow> list_ex (\<lambda>s. name s = result_name) servers
                    | None \<Rightarrow> False)
          (map fst TEST_SERVERS)"

text \<open>
  The objects \<^verbatim>\<open>serverStats\<close> and \<^verbatim>\<open>sizeStats\<close> are association lists in
  insertion order, the order of \<^verbatim>\<open>Object.entries\<close>. An \<^verbatim>\<open>undefined\<close> provider is
  the property key \<^verbatim>\<open>"undefined"\<close>.
\<close>

text \<open>\<^verbatim>\<open>if (result.ping) pings.push(result.ping)\<close>: \<^verbatim>\<open>null\<close> and zero are falsy.\<close>

fun push_ping :: "real option \<Rightarrow> real list \<Rightarrow> real list" where
  "push_ping None pings = pings"
| "push_ping (Some p) pings = (if p \<noteq> 0 then pings @ [p] else pings)"

fun push_stats ::
  "string \<Rightarrow> real \<Rightarrow> real option \<Rightarrow> (string \<times> real list \<times> real list) list
     \<Rightarrow> (string \<times> real list \<times> real list) list"
where
  "push_stats provider speed p [] = [(provider, [speed], push_ping p [])]"
| "push_stats provider speed p ((key, speeds, pings) # stats) =
     (if key = provider
      then (key, speeds @ [speed], push_ping p pings) # stats
      else (key, speeds, pings) # push_stats provider speed p stats)"

fun push_size :: "string \<Rightarrow> real \<Rightarrow> (string \<times> real list) list \<Rightarrow> (string \<times> real list) list" where
  "push_size label speed [] = [(label, [speed])]"
| "push_size label speed ((key, speeds) # stats) =
     (if key = label then (key, speeds @ [speed]) # stats
      else (key, speeds) # push_size label speed stats)"

definition serverStats_of :: "testResult list \<Rightarrow> (string \<times> real list \<times> real list) list" where
  "serverStats_of validResults =
     foldl (\<lambda>serverStats result.
              push_stats (case provider_of (name result) of None \<Rightarrow> ''undefined'' | Some key \<Rightarrow> key)
                         (speedMbps result) (ping result) serverStats)
           [] validResults"

definition sizeStats_of :: "testResult list \<Rightarrow> (string \<times> real list) list" where
  "sizeStats_of validResults =
     foldl (\<lambda>sizeStats result.
              push_size (show_nat (sizeMB result) @ ''MB'') (speedMbps result) sizeStats)
           [] validResults"

definition average_by_provider :: "testResult list \<Rightarrow> (string \<times> real \<times> real option) list" where
  "average_by_provider validResults =
     map (\<lambda>(provider, speeds, pings).
            (provider, average speeds, if length pings > 0 then Some (average pings) else None))
         (serverStats_of validResults)"

definition average_by_size :: "testResult list \<Rightarrow> (string \<times> real) list" where
  "average_by_size validResults =
     map (\<lambda>(label, speeds). (label, average speeds)) (sizeStats_of validResults)"

record display =
  byProvider :: "(string \<times> real \<times> real option) list"
  bySize :: "(string \<times> real) list"
  avgSpeed :: real
  maxSpeed :: number
  minSpeed :: number
  bestResult :: string
  worstResult :: string

text \<open>
  What \<^verbatim>\<open>displayStatistics\<close> computes and prints; \<open>None\<close> is the early return after
  \<^verbatim>\<open>No successful tests\<close>. Reading \<^verbatim>\<open>.name\<close> of an \<^verbatim>\<open>undefined\<close> result of
  \<^verbatim>\<open>find\<close> throws.
\<close>

definition displayStatistics :: "testResult list \<Rightarrow> error + display option" where
  "displayStatistics results =
    (let validResults = filter (\<lambda>r. \<not> truthy (error r)) results in
     if length validResults = 0 then Inr None
     else
       let allSpeeds = map speedMbps validResults;
           maxSpeed' = Math_max allSpeeds;
           minSpeed' = Math_min allSpeeds
       in case (find (\<lambda>r. Num (speedMbps r) = maxSpeed') validResults,
                find (\<lambda>r. Num (speedMbps r) = minSpeed') validResults) of
            (Some best, Some worst) \<Rightarrow>
              Inr (Some \<lparr>byProvider = average_by_provider validResults,
                         bySize = average_by_size validResults,
                         avgSpeed = average allSpeeds,
                         maxSpeed = maxSpeed',
                         minSpeed = minSpeed',
                         bestResult = name best,
                         worstResult = name worst\<rparr>)
          | _ \<Rightarrow> Inl (TypeError ''Cannot read properties of undefined (reading 'name')''))"

subsection \<open>SpeedTest\<close>

record options =
  servers :: "string list"
  sizes :: "int list option"
  proxy :: "string option"

text \<open>
  The constructor. Sizes are numbers here, on which the conversion of the constructor is
  the identity. An empty array is truthy, an empty proxy string is not.
\<close>

definition SpeedTest :: "string list option \<Rightarrow> int list option \<Rightarrow> string option \<Rightarrow> options" where
  "SpeedTest servers' sizes' proxy' =
    (let servers0 = (case servers' of None \<Rightarrow> [''cachefly''] | Some l \<Rightarrow> l)
     in \<lparr>servers = (if ''all'' \<in> set servers0 then map fst TEST_SERVERS else servers0),
         sizes = sizes',
         proxy = (if truthy proxy' then proxy' else None)\<rparr>)"

text \<open>
  \<^verbatim>\<open>createAgent\<close>: \<open>installed\<close> says whether importing \<^verbatim>\<open>socks-proxy-agent\<close> and
  constructing the agent succeed; otherwise the \<^verbatim>\<open>catch\<close> warns and returns
  \<^verbatim>\<open>null\<close>.
\<close>

definition createAgent :: "bool \<Rightarrow> string option \<Rightarrow> bool \<Rightarrow> agent option" where
  "createAgent installed proxy' isHttps =
    (case proxy' of
       None \<Rightarrow> None
     | Some p \<Rightarrow> if p = [] then None
                else if installed then Some (SocksProxyAgent p) else None)"

text \<open>
  Build the test list: the loop over \<^verbatim>\<open>this.options.servers\<close>. Iterating an inherited
  property with \<^verbatim>\<open>for ... of\<close> throws a \<^verbatim>\<open>TypeError\<close>.
\<close>

definition size_selected :: "int list option \<Rightarrow> target \<Rightarrow> bool" where
  "size_selected sizes' server =
     (case sizes' of None \<Rightarrow> True | Some l \<Rightarrow> int (sizeMB server) \<in> set l)"

fun build_test_list :: "string list \<Rightarrow> int list option \<Rightarrow> target list \<Rightarrow> error + target list" where
  "build_test_list [] sizes' tests = Inr tests"
| "build_test_list (serverKey # rest) sizes' tests =
     (case TEST_SERVERS_get serverKey of
        Undefined \<Rightarrow> build_test_list rest sizes' tests
      | Inherited \<Rightarrow> Inl (TypeError ''TEST_SERVERS[serverKey] is not iterable'')
      | Own list \<Rightarrow> build_test_list rest sizes' (tests @ filter (size_selected sizes') list))"

text \<open>Run the tests: one \<^verbatim>\<open>testServer\<close> after the other, each result pushed.\<close>

fun run_tests ::
  "network \<Rightarrow> agent option \<Rightarrow> target list \<Rightarrow> testResult list \<Rightarrow> real
     \<Rightarrow> (testResult list \<times> real) option"
where
  "run_tests net agent [] results now = Some (results, now)"
| "run_tests net agent (test # rest) results now =
     (case testServer net test agent False now of
        None \<Rightarrow> None
      | Some (result, now') \<Rightarrow> run_tests net agent rest (results @ [result]) now')"

text \<open>Calculate statistics: \<open>None\<close> is the object \<^verbatim>\<open>{}\<close> that is left without fields.\<close>

record statistics =
  averageSpeed :: real
  maxSpeed :: number
  minSpeed :: number
  bestServer :: "string option"
  worstServer :: "string option"

definition calculate_statistics :: "testResult list \<Rightarrow> statistics option" where
  "calculate_statistics results =
    (let validResults = filter (\<lambda>r. \<not> truthy (error r)) results in
     if length validResults > 0 then
       let speeds = map speedMbps validResults;
           maxSpeed' = Math_max speeds;
           minSpeed' = Math_min speeds
       in Some \<lparr>averageSpeed = average speeds,
                 maxSpeed = maxSpeed',
                 minSpeed = minSpeed',
                 bestServer = map_option name (find (\<lambda>r. Num (speedMbps r) = maxSpeed') validResults),
                 worstServer = map_option name (find (\<lambda>r. Num (speedMbps r) = minSpeed') validResults)\<rparr>
     else None)"

record run_result =
  results :: "testResult list"
  statistics :: "statistics option"

definition run :: "bool \<Rightarrow> network \<Rightarrow> options \<Rightarrow> real \<Rightarrow> run_result promise" where
  "run installed net opts now =
    (let agent = createAgent installed (proxy opts) True in
     case build_test_list (servers opts) (sizes opts) [] of
       Inl err \<Rightarrow> Some (Inl err, now)
     | Inr tests \<Rightarrow>
         (case run_tests net agent tests [] now of
            None \<Rightarrow> None
          | Some (results', now') \<Rightarrow>
              Some (Inr \<lparr>results = results', statistics = calculate_statistics results'\<rparr>, now')))"

section \<open>Notions used in the statements\<close>

subsection \<open>Requests that settle\<close>

text \<open>
  A chain of redirects that is finite: the reply is not a redirect, or it is one and the
  chain from its target, requested when the reply arrives, is finite.
\<close>

inductive finite_chain :: "network \<Rightarrow> string \<Rightarrow> agent option \<Rightarrow> nat \<Rightarrow> real \<Rightarrow> bool"
  for net :: network
where
  final:
    "(case net now url' agent timeout of
        Response elapsed statusCode location body ending unread \<Rightarrow>
          redirect_target statusCode location = None
      | _ \<Rightarrow> True)
     \<Longrightarrow> finite_chain net url' agent timeout now"
| hop:
    "net now url' agent timeout = Response elapsed statusCode location body ending unread
     \<Longrightarrow> redirect_target statusCode location = Some target
     \<Longrightarrow> finite_chain net target agent timeout (now + millis elapsed)
     \<Longrightarrow> finite_chain net url' agent timeout now"

text \<open>
  The requests of a run are the probe, with a timeout of 5000 ms, and the fetch, with the
  default timeout of 30000 ms, of the URL of each target on its list, through the agent of
  the run. They settle when each does, whenever it is issued.
\<close>

definition requests_settle :: "network \<Rightarrow> agent option \<Rightarrow> target list \<Rightarrow> bool" where
  "requests_settle net agent tests \<longleftrightarrow>
     (\<forall>server\<in>set tests. \<forall>now.
        makeRequest net (url server) agent 5000 now \<noteq> None
      \<and> makeRequest net (url server) agent 30000 now \<noteq> None)"

text \<open>
  The target of the redirect that a reply starts, and what a reply that starts none makes
  of a call issued at \<open>now\<close> with nothing armed.
\<close>

fun redirects :: "reply \<Rightarrow> string option" where
  "redirects (Response elapsed statusCode location body ending unread) =
     redirect_target statusCode location"
| "redirects _ = None"

fun own_result :: "reply \<Rightarrow> real \<Rightarrow> (error + outcome) \<times> real" where
  "own_result InvalidURL now = (Inl (TypeError ''Invalid URL''), now)"
| "own_result (RequestError elapsed msg) now = (Inl (Error msg), now + millis elapsed)"
| "own_result (RequestTimeout elapsed) now = (Inl (Error ''Timeout''), now + millis elapsed)"
| "own_result (Response elapsed statusCode location body ending unread) now =
     (if statusCode \<noteq> 200 \<and> statusCode \<noteq> 204
      then (Inl (Error (''HTTP '' @ show_nat statusCode)), now + millis elapsed)
      else case ending of
             StreamError msg \<Rightarrow> (Inl (Error msg), now + millis elapsed)
           | StreamTimeout \<Rightarrow> (Inl (Error ''Timeout''), now + millis elapsed)
           | End \<Rightarrow>
               (Inr \<lparr>bytes = sum_list (map length body),
                     duration = millis elapsed / 1000,
                     speedMbps = real (sum_list (map length body)) * 8 / (millis elapsed / 1000) / 1000000,
                     speedMBps = real (sum_list (map length body)) / (millis elapsed / 1000) / 1048576\<rparr>,
                now + millis elapsed))"

text \<open>An armed rejection, if there is one, does not fire before a given reading of the clock.\<close>

fun armed_from :: "real \<Rightarrow> armed \<Rightarrow> bool" where
  "armed_from now None \<longleftrightarrow> True"
| "armed_from now (Some (t, err)) \<longleftrightarrow> now \<le> t"

subsection \<open>Replies that differ in content only\<close>

fun same_lengths :: "reply \<Rightarrow> reply \<Rightarrow> bool" where
  "same_lengths (Response elapsed statusCode location body ending unread)
                (Response elapsed' statusCode' location' body' ending' unread') \<longleftrightarrow>
     elapsed = elapsed' \<and> statusCode = statusCode' \<and> location = location' \<and>
     map length body = map length body' \<and> ending = ending' \<and> unread = unread'"
| "same_lengths r r' \<longleftrightarrow> r = r'"

subsection \<open>The test of one target, and of a list of targets\<close>

text \<open>
  The test of a target in the words of the specification: the latency probe of its URL,
  whose result is recorded whatever it is, then the fetch of the same URL with the default
  timeout, issued when the probe returns; on success the speeds and the duration of the
  outcome, on failure the message of the error and the three fields left at zero.
  \<open>measured net agent server now r now'\<close>: the test of \<open>server\<close> started at \<open>now\<close>
  ends at \<open>now'\<close> with the result \<open>r\<close>.
\<close>

definition measured ::
  "network \<Rightarrow> agent option \<Rightarrow> target \<Rightarrow> real \<Rightarrow> testResult \<Rightarrow> real \<Rightarrow> bool"
where
  "measured net agent server now r now' \<longleftrightarrow>
     (\<exists>latency now1.
        pingTest net (url server) agent now = Some (Inr latency, now1)
      \<and> (case makeRequest net (url server) agent 30000 now1 of
           None \<Rightarrow> False
         | Some (Inl err, now2) \<Rightarrow>
             now' = now2 \<and>
             r = \<lparr>name = name server, url = url server, sizeMB = sizeMB server,
                  ping = latency, speedMbps = 0, speedMBps = 0, duration = 0,
                  error = Some (message err)\<rparr>
         | Some (Inr out, now2) \<Rightarrow>
             now' = now2 \<and>
             r = \<lparr>name = name server, url = url server, sizeMB = sizeMB server,
                  ping = latency, speedMbps = outcome.speedMbps out,
                  speedMBps = outcome.speedMBps out, duration = outcome.duration out,
                  error = None\<rparr>))"

text \<open>
  The targets of a list tested one after the other, each test started when the one before
  has ended: one result per target, in the order of the list.
\<close>

fun measured_in_turn ::
  "network \<Rightarrow> agent option \<Rightarrow> target list \<Rightarrow> real \<Rightarrow> testResult list \<Rightarrow> real \<Rightarrow> bool"
where
  "measured_in_turn net agent [] now rs now' \<longleftrightarrow> rs = [] \<and> now' = now"
| "measured_in_turn net agent (server # rest) now rs now' \<longleftrightarrow>
     (\<exists>r rs' between.
        rs = r # rs' \<and> measured net agent server now r between
      \<and> measured_in_turn net agent rest between rs' now')"

subsection \<open>Target selection\<close>

text \<open>
  The list that the loop of \<^verbatim>\<open>run\<close> builds when no key is inherited: for each requested
  key in turn, the selected targets of that provider.
\<close>

definition requested_targets :: "string list \<Rightarrow> int list option \<Rightarrow> target list" where
  "requested_targets keys sizes' =
     concat (map (\<lambda>key. case map_of TEST_SERVERS key of
                            Some list \<Rightarrow> filter (size_selected sizes') list
                          | None \<Rightarrow> [])
                 keys)"

text \<open>
  The selection in the words of the specification: every target of the catalog, in catalog
  order, whose provider key is in the requested set and whose size passes the size filter.
\<close>

definition catalog_filter :: "string list \<Rightarrow> int list option \<Rightarrow> target list" where
  "catalog_filter providers sizes' =
     concat (map (\<lambda>(key, list). filter (\<lambda>t. key \<in> set providers \<and> size_selected sizes' t) list)
                 TEST_SERVERS)"

text \<open>
  What a run that resolved returned, and the targets of its results in the order of the
  results.
\<close>

definition returned :: "run_result promise \<Rightarrow> run_result option" where
  "returned p = (case p of Some (Inr out, _) \<Rightarrow> Some out | _ \<Rightarrow> None)"

definition tested :: "run_result promise \<Rightarrow> target list option" where
  "tested p = (case p of Some (Inr out, _) \<Rightarrow> Some (map target.truncate (results out)) | _ \<Rightarrow> None)"

subsection \<open>Sample networks and results\<close>

text \<open>Every request is answered with status 200 and 1 250 000 bytes after one second.\<close>

definition steady :: network where
  "steady now url' agent timeout = Response (Ms 1000) 200 None [replicate 1250000 0] End Closed"

definition steady_outcome :: outcome where
  "steady_outcome = \<lparr>bytes = 1250000, duration = 1, speedMbps = 10, speedMBps = 78125 / 65536\<rparr>"

text \<open>
  Every request is answered after one second with status 200 and as many bytes as a table
  gives for its URL; two tables for the four targets of two providers.
\<close>

definition served :: "(string \<Rightarrow> nat) \<Rightarrow> network" where
  "served length_of now url' agent timeout =
     Response (Ms 1000) 200 None [replicate (length_of url') 0] End Closed"

definition load_A :: "string \<Rightarrow> nat" where
  "load_A url' =
     (if url' = ''https://speed.cloudflare.com/__down?bytes=10485760'' then 25000000
      else if url' = ''https://speed.cloudflare.com/__down?bytes=104857600'' then 12500000
      else if url' = ''http://cachefly.cachefly.net/10mb.test'' then 18750000
      else 6250000)"

definition load_B :: "string \<Rightarrow> nat" where
  "load_B url' =
     (if url' = ''https://speed.cloudflare.com/__down?bytes=10485760'' then 25000000
      else if url' = ''https://speed.cloudflare.com/__down?bytes=104857600'' then 18750000
      else if url' = ''http://cachefly.cachefly.net/10mb.test'' then 12500000
      else 6250000)"

text \<open>No request is answered before its timeout.\<close>

definition unresponsive :: network where
  "unresponsive now url' agent timeout = RequestTimeout (Ms (real timeout))"


text \<open>Every request fails with an error whose message is the empty string.\<close>

definition silent_failure :: network where
  "silent_failure now url' agent timeout = RequestError (Ms 3) ''''"

text \<open>
  A chain of redirects whose servers close the connection after each response: a URL of
  \<open>n + 1\<close> characters redirects to the URL without its first character; a URL of one
  character is served as by \<open>steady\<close>.
\<close>

definition chain :: network where
  "chain now url' agent timeout =
     (case url' of
        [] \<Rightarrow> InvalidURL
      | [c] \<Rightarrow> Response (Ms 1000) 200 None [replicate 1250000 0] End Closed
      | c # rest \<Rightarrow> Response (Ms 1) 302 (Some rest) [] End Closed)"

text \<open>
  Every URL redirects to the same URL, one millisecond after the request. The server of
  \<open>closing_loop\<close> closes the connection after each response
  (\<^verbatim>\<open>Connection: close\<close>); the server of \<open>keepalive_loop\<close> keeps it open, and the
  socket, on which nothing more arrives, emits \<^verbatim>\<open>timeout\<close> when it has idled for the
  timeout of the request.
\<close>

definition closing_loop :: network where
  "closing_loop now url' agent timeout =
     Response (Ms 1) 302 (Some ''http://a.example/'') [] End Closed"

definition keepalive_loop :: network where
  "keepalive_loop now url' agent timeout =
     Response (Ms 1) 302 (Some ''http://a.example/'') [] End (IdleTimeout (Ms (real timeout)))"

text \<open>
  \<^verbatim>\<open>http://a.example/\<close> answers 302 with the \<^verbatim>\<open>Location\<close> of
  \<^verbatim>\<open>http://b.example/\<close> after two milliseconds. Every other URL is a download of
  1 250 000 bytes that takes six seconds, the data flowing all the time. The server of
  \<open>slow_redirect\<close> keeps the connection of the redirect open, the server of
  \<open>slow_redirect_closing\<close> closes it.
\<close>

definition slow_redirect :: network where
  "slow_redirect now url' agent timeout =
     (if url' = ''http://a.example/''
      then Response (Ms 2) 302 (Some ''http://b.example/'') [] End (IdleTimeout (Ms (real timeout)))
      else Response (Ms 6000) 200 None [replicate 1250000 0] End Closed)"

definition slow_redirect_closing :: network where
  "slow_redirect_closing now url' agent timeout =
     (if url' = ''http://a.example/''
      then Response (Ms 2) 302 (Some ''http://b.example/'') [] End Closed
      else Response (Ms 6000) 200 None [replicate 1250000 0] End Closed)"

definition slow_outcome :: outcome where
  "slow_outcome = \<lparr>bytes = 1250000, duration = 6, speedMbps = 5 / 3, speedMBps = 78125 / 393216\<rparr>"

text \<open>Two networks whose responses have chunks of the same lengths and different bytes.\<close>

definition zeros :: network where
  "zeros now url' agent timeout = Response (Ms 1000) 200 None [[0, 0, 0], [0, 0]] End Closed"

definition digits :: network where
  "digits now url' agent timeout = Response (Ms 1000) 200 None [[1, 2, 3], [4, 5]] End Closed"

definition cachefly10 :: target where
  "cachefly10 = \<lparr>name = ''CacheFly 10MB'', url = ''http://cachefly.cachefly.net/10mb.test'', sizeMB = 10\<rparr>"

definition cachefly100 :: target where
  "cachefly100 = \<lparr>name = ''CacheFly 100MB'', url = ''http://cachefly.cachefly.net/100mb.test'', sizeMB = 100\<rparr>"

text \<open>A successful result with a given name, size and speed.\<close>

definition result_at :: "string \<Rightarrow> nat \<Rightarrow> real \<Rightarrow> testResult" where
  "result_at n s v = \<lparr>name = n, url = '''', sizeMB = s, ping = None, speedMbps = v,
                      speedMBps = v / 8, duration = 1, error = None\<rparr>"

section \<open>Properties\<close>

subsection \<open>Spans of time\<close>

lemma millis_pos: "0 < millis t"
  using millis[of t] by simp

lemma millis_Ms: "0 < t \<Longrightarrow> millis (Ms t) = t"
  by (simp add: Ms_inverse)

subsection \<open>The race between a redirected request and its redirect\<close>

lemma settle_None: "settle None r = r"
  by (simp add: settle_def)

lemma first_armed_None: "first_armed a None = a"
  by (cases a) auto

lemma first_armed_assoc: "first_armed (first_armed a b) c = first_armed a (first_armed b c)"
  by (cases a; cases b; cases c) auto

lemma settle_settle: "settle a (settle b r) = settle (first_armed a b) r"
  by (cases a; cases b) (auto simp: settle_def)

lemma overdue_first_armed:
  "overdue (first_armed a b) now =
     (case overdue b now of
        None \<Rightarrow> overdue a now
      | Some r \<Rightarrow> Some (settle a r))"
  by (cases a; cases b) (auto simp: settle_def)

lemma overdue_Inl: "overdue a now = Some r \<Longrightarrow> \<exists>t err. a = Some (t, err) \<and> t < now \<and> r = (Inl err, t)"
  by (cases a) (auto split: if_splits)

lemma settle_cases:
  "settle a r = r \<or> (\<exists>t err. a = Some (t, err) \<and> t < snd r \<and> settle a r = (Inl err, t))"
  by (cases a) (auto simp: settle_def)

lemma settle_Inr: "settle a r = (Inr out, t) \<Longrightarrow> r = (Inr out, t)"
  using settle_cases[of a r] by auto

subsection \<open>makeRequest\<close>

lemma on_data_bytes:
  "on_data body (n, cs) = (n + sum_list (map length body), cs @ body)"
  by (induction body arbitrary: n cs) auto

text \<open>A reply that starts a redirect.\<close>

lemma makeRequest_armed_redirect:
  assumes "net now A agent timeout = Response elapsed statusCode location body ending unread"
    and "redirect_target statusCode location = Some B"
  shows "makeRequest_armed net A agent timeout armed now =
         (case overdue armed (now + millis elapsed) of
            Some rejection \<Rightarrow> Some rejection
          | None \<Rightarrow> makeRequest_armed net B agent timeout
                      (first_armed armed (late_event (now + millis elapsed) unread))
                      (now + millis elapsed))"
  using assms by (subst makeRequest_armed.simps) simp

text \<open>
  A reply that starts no redirect settles the call: with its own result, or with the armed
  rejection if that fires earlier.
\<close>

lemma final_reply:
  assumes "redirects (net now url' agent timeout) = None"
  shows "makeRequest_armed net url' agent timeout armed now =
           Some (settle armed (own_result (net now url' agent timeout) now))"
proof (cases "net now url' agent timeout")
  case (Response elapsed statusCode location body ending unread)
  with assms have "redirect_target statusCode location = None" by simp
  with Response show ?thesis
    by (subst makeRequest_armed.simps) (auto simp: on_data_bytes split: stream_end.splits)
qed (simp_all add: makeRequest_armed.simps)

lemma own_result_later: "now \<le> snd (own_result reply now)"
  by (cases reply) (auto simp: less_imp_le[OF millis_pos] split: stream_end.splits)

text \<open>
  Induction over the requests of a call that settles: the reply starts no redirect; or it
  starts one after the armed rejection has fired; or it starts one that is followed.
\<close>

lemma makeRequest_armed_induct [consumes 1, case_names final overdue hop]:
  assumes "makeRequest_armed net url' agent timeout armed now = Some r"
    and "\<And>url' armed now. redirects (net now url' agent timeout) = None
           \<Longrightarrow> P url' armed now (settle armed (own_result (net now url' agent timeout) now))"
    and "\<And>url' armed now elapsed statusCode location body ending unread target rejection.
           net now url' agent timeout = Response elapsed statusCode location body ending unread
           \<Longrightarrow> redirect_target statusCode location = Some target
           \<Longrightarrow> overdue armed (now + millis elapsed) = Some rejection
           \<Longrightarrow> P url' armed now rejection"
    and "\<And>url' armed now elapsed statusCode location body ending unread target r.
           net now url' agent timeout = Response elapsed statusCode location body ending unread
           \<Longrightarrow> redirect_target statusCode location = Some target
           \<Longrightarrow> overdue armed (now + millis elapsed) = (None :: ((error + outcome) \<times> real) option)
           \<Longrightarrow> makeRequest_armed net target agent timeout
                 (first_armed armed (late_event (now + millis elapsed) unread))
                 (now + millis elapsed) = Some r
           \<Longrightarrow> P target (first_armed armed (late_event (now + millis elapsed) unread))
                 (now + millis elapsed) r
           \<Longrightarrow> P url' armed now r"
  shows "P url' armed now r"
proof -
  have "\<forall>P. (\<forall>url' armed now. redirects (net now url' agent timeout) = None
           \<longrightarrow> P url' armed now (settle armed (own_result (net now url' agent timeout) now)))
      \<longrightarrow> (\<forall>url' armed now elapsed statusCode location body ending unread target rejection.
           net now url' agent timeout = Response elapsed statusCode location body ending unread
           \<longrightarrow> redirect_target statusCode location = Some target
           \<longrightarrow> overdue armed (now + millis elapsed) = Some rejection
           \<longrightarrow> P url' armed now rejection)
      \<longrightarrow> (\<forall>url' armed now elapsed statusCode location body ending unread target r.
           net now url' agent timeout = Response elapsed statusCode location body ending unread
           \<longrightarrow> redirect_target statusCode location = Some target
           \<longrightarrow> overdue armed (now + millis elapsed) = (None :: ((error + outcome) \<times> real) option)
           \<longrightarrow> makeRequest_armed net target agent timeout
                 (first_armed armed (late_event (now + millis elapsed) unread))
                 (now + millis elapsed) = Some r
           \<longrightarrow> P target (first_armed armed (late_event (now + millis elapsed) unread))
                 (now + millis elapsed) r
           \<longrightarrow> P url' armed now r)
      \<longrightarrow> makeRequest_armed net url' agent timeout armed now = Some r \<and> P url' armed now r"
  proof (rule makeRequest_armed.raw_induct
    [where P = "\<lambda>net url' agent timeout armed now r.
      \<forall>P. (\<forall>url' armed now. redirects (net now url' agent timeout) = None
           \<longrightarrow> P url' armed now (settle armed (own_result (net now url' agent timeout) now)))
      \<longrightarrow> (\<forall>url' armed now elapsed statusCode location body ending unread target rejection.
           net now url' agent timeout = Response elapsed statusCode location body ending unread
           \<longrightarrow> redirect_target statusCode location = Some target
           \<longrightarrow> overdue armed (now + millis elapsed) = Some rejection
           \<longrightarrow> P url' armed now rejection)
      \<longrightarrow> (\<forall>url' armed now elapsed statusCode location body ending unread target r.
           net now url' agent timeout = Response elapsed statusCode location body ending unread
           \<longrightarrow> redirect_target statusCode location = Some target
           \<longrightarrow> overdue armed (now + millis elapsed) = (None :: ((error + outcome) \<times> real) option)
           \<longrightarrow> makeRequest_armed net target agent timeout
                 (first_armed armed (late_event (now + millis elapsed) unread))
                 (now + millis elapsed) = Some r
           \<longrightarrow> P target (first_armed armed (late_event (now + millis elapsed) unread))
                 (now + millis elapsed) r
           \<longrightarrow> P url' armed now r)
      \<longrightarrow> makeRequest_armed net url' agent timeout armed now = Some r \<and> P url' armed now r",
      OF _ assms(1)], goal_cases)
    case (1 f net url' agent timeout armed startTime r)
    show ?case
    proof (intro allI impI)
      fix P
      assume final: "\<forall>url' armed now. redirects (net now url' agent timeout) = None
           \<longrightarrow> P url' armed now (settle armed (own_result (net now url' agent timeout) now))"
        and overdue: "\<forall>url' armed now elapsed statusCode location body ending unread target rejection.
           net now url' agent timeout = Response elapsed statusCode location body ending unread
           \<longrightarrow> redirect_target statusCode location = Some target
           \<longrightarrow> overdue armed (now + millis elapsed) = Some rejection
           \<longrightarrow> P url' armed now rejection"
        and hop: "\<forall>url' armed now elapsed statusCode location body ending unread target r.
           net now url' agent timeout = Response elapsed statusCode location body ending unread
           \<longrightarrow> redirect_target statusCode location = Some target
           \<longrightarrow> overdue armed (now + millis elapsed) = (None :: ((error + outcome) \<times> real) option)
           \<longrightarrow> makeRequest_armed net target agent timeout
                 (first_armed armed (late_event (now + millis elapsed) unread))
                 (now + millis elapsed) = Some r
           \<longrightarrow> P target (first_armed armed (late_event (now + millis elapsed) unread))
                 (now + millis elapsed) r
           \<longrightarrow> P url' armed now r"
      show "makeRequest_armed net url' agent timeout armed startTime = Some r \<and> P url' armed startTime r"
      proof (cases "redirects (net startTime url' agent timeout)")
        case None
        have m: "makeRequest_armed net url' agent timeout armed startTime =
                 Some (settle armed (own_result (net startTime url' agent timeout) startTime))"
          using None by (rule final_reply)
        have "Some r = Some (settle armed (own_result (net startTime url' agent timeout) startTime))"
          using 1(2) None
          by (cases "net startTime url' agent timeout")
             (auto simp: on_data_bytes split: stream_end.splits)
        with m final None show ?thesis by simp
      next
        case (Some target)
        then obtain elapsed statusCode location body ending unread where
          R: "net startTime url' agent timeout = Response elapsed statusCode location body ending unread"
          and T: "redirect_target statusCode location = Some target"
          by (cases "net startTime url' agent timeout") auto
        show ?thesis
        proof (cases "overdue armed (startTime + millis elapsed) :: ((error + outcome) \<times> real) option")
          case (Some rejection)
          with R T 1(2) have r: "r = rejection" by simp
          from R T Some have "makeRequest_armed net url' agent timeout armed startTime = Some rejection"
            by (subst makeRequest_armed.simps) simp
          with r overdue R T Some show ?thesis by blast
        next
          case None
          with R T 1(2) have "f net target agent timeout
                 (first_armed armed (late_event (startTime + millis elapsed) unread))
                 (startTime + millis elapsed) = Some r" by simp
          from 1(1)[OF this, THEN spec, of P] final overdue hop
          have i: "makeRequest_armed net target agent timeout
                 (first_armed armed (late_event (startTime + millis elapsed) unread))
                 (startTime + millis elapsed) = Some r"
            and p: "P target (first_armed armed (late_event (startTime + millis elapsed) unread))
                 (startTime + millis elapsed) r"
            by blast+
          from R T None i have "makeRequest_armed net url' agent timeout armed startTime = Some r"
            by (subst makeRequest_armed.simps) simp
          with hop R T None i p show ?thesis by blast
        qed
      qed
    qed
  qed
  from this[rule_format, of P, OF assms(2-4)] show ?thesis by simp
qed

lemma finite_chain_settles:
  "finite_chain net url' agent timeout now
   \<Longrightarrow> \<exists>r. makeRequest_armed net url' agent timeout armed now = Some r"
proof (induction arbitrary: armed rule: finite_chain.induct)
  case (final now url' agent timeout)
  then have "redirects (net now url' agent timeout) = None"
    by (cases "net now url' agent timeout") auto
  from final_reply[where net = net and now = now and url' = url' and agent = agent and timeout = timeout, OF this] show ?case by blast
next
  case (hop now url' agent timeout elapsed statusCode location body ending unread target)
  show ?case
  proof (cases "overdue armed (now + millis elapsed) :: ((error + outcome) \<times> real) option")
    case None
    with hop.hyps(1,2)
      hop.IH[of "first_armed armed (late_event (now + millis elapsed) unread)"]
    show ?thesis by (subst makeRequest_armed.simps) simp
  next
    case (Some rejection)
    with hop.hyps(1,2) show ?thesis by (subst makeRequest_armed.simps) simp
  qed
qed

lemma own_result_speeds:
  "case fst (own_result reply now) of Inl _ \<Rightarrow> True
   | Inr out \<Rightarrow> 0 < outcome.duration out
       \<and> outcome.speedMbps out = real (bytes out) * 8 / outcome.duration out / 1000000
       \<and> outcome.speedMBps out = real (bytes out) / outcome.duration out / 1048576"
  by (cases reply) (auto simp: millis_pos split: stream_end.splits)

lemma settle_fst:
  "(case fst r of Inl _ \<Rightarrow> True | Inr out \<Rightarrow> Q out)
   \<Longrightarrow> (case fst (settle a r) of Inl _ \<Rightarrow> True | Inr out \<Rightarrow> Q out)"
  using settle_cases[of a r] by auto

lemma makeRequest_armed_speeds:
  assumes "makeRequest_armed net url' agent timeout armed now = Some r"
  shows "case fst r of Inl _ \<Rightarrow> True
         | Inr out \<Rightarrow> 0 < outcome.duration out
       \<and> outcome.speedMbps out = real (bytes out) * 8 / outcome.duration out / 1000000
       \<and> outcome.speedMBps out = real (bytes out) / outcome.duration out / 1048576"
  using assms
proof (induction rule: makeRequest_armed_induct)
  case (final url' armed now)
  show ?case by (rule settle_fst) (rule own_result_speeds)
next
  case (overdue url' armed now elapsed statusCode location body ending unread target rejection)
  then show ?case by (auto dest!: overdue_Inl)
next
  case (hop url' armed now elapsed statusCode location body ending unread target r)
  then show ?case by simp
qed

lemma own_result_bytes:
  "case fst (own_result reply now) of Inl _ \<Rightarrow> True
   | Inr out \<Rightarrow> \<exists>elapsed statusCode location body unread.
       reply = Response elapsed statusCode location body End unread
     \<and> bytes out = sum_list (map length body) \<and> snd (own_result reply now) = now + millis elapsed"
  by (cases reply) (auto split: stream_end.splits)

lemma makeRequest_armed_bytes:
  assumes "makeRequest_armed net url' agent timeout armed now = Some r"
  shows "case fst r of Inl _ \<Rightarrow> True
         | Inr out \<Rightarrow> \<exists>now0 url0 elapsed statusCode location body unread.
             net now0 url0 agent timeout = Response elapsed statusCode location body End unread
           \<and> bytes out = sum_list (map length body) \<and> snd r = now0 + millis elapsed"
  using assms
proof (induction rule: makeRequest_armed_induct)
  case (final url' armed now)
  show ?case
  proof (cases "fst (settle armed (own_result (net now url' agent timeout) now))")
    case (Inl err)
    then show ?thesis by simp
  next
    case (Inr out)
    then have e: "settle armed (own_result (net now url' agent timeout) now)
               = (Inr out, snd (settle armed (own_result (net now url' agent timeout) now)))"
      by (cases "settle armed (own_result (net now url' agent timeout) now)") simp
    from settle_Inr[OF e] e have s: "settle armed (own_result (net now url' agent timeout) now)
        = own_result (net now url' agent timeout) now" by simp
    from own_result_bytes[of "net now url' agent timeout" now] Inr show ?thesis
      unfolding s by fastforce
  qed
next
  case (overdue url' armed now elapsed statusCode location body ending unread target rejection)
  then show ?case by (auto dest!: overdue_Inl)
next
  case (hop url' armed now elapsed statusCode location body ending unread target r)
  then show ?case by simp
qed

lemma same_lengths_sym: "same_lengths r r' \<Longrightarrow> same_lengths r' r"
  by (cases r; cases r') auto

lemma same_lengths_redirects: "same_lengths r r' \<Longrightarrow> redirects r' = redirects r"
  by (cases r; cases r') auto

lemma same_lengths_own_result: "same_lengths r r' \<Longrightarrow> own_result r' now = own_result r now"
  by (cases r; cases r') (auto split: stream_end.splits)

lemma makeRequest_armed_same_lengths_Some:
  assumes "makeRequest_armed net url' agent timeout armed now = Some r"
    and "\<forall>now url'. same_lengths (net now url' agent timeout) (net' now url' agent timeout)"
  shows "makeRequest_armed net' url' agent timeout armed now = Some r"
  using assms(1)
proof (induction rule: makeRequest_armed_induct)
  case (final url' armed now)
  from assms(2) have s: "same_lengths (net now url' agent timeout) (net' now url' agent timeout)"
    by blast
  from final same_lengths_redirects[OF s]
  have "redirects (net' now url' agent timeout) = None" by simp
  from final_reply[where net = net' and now = now and url' = url' and agent = agent and timeout = timeout, OF this] same_lengths_own_result[OF s] show ?case by simp
next
  case (overdue url' armed now elapsed statusCode location body ending unread target rejection)
  from assms(2) have "same_lengths (net now url' agent timeout) (net' now url' agent timeout)"
    by blast
  with overdue(1) obtain body' where
    "net' now url' agent timeout = Response elapsed statusCode location body' ending unread"
    by (cases "net' now url' agent timeout") auto
  with overdue(2,3) show ?case by (subst makeRequest_armed.simps) simp
next
  case (hop url' armed now elapsed statusCode location body ending unread target r)
  from assms(2) have "same_lengths (net now url' agent timeout) (net' now url' agent timeout)"
    by blast
  with hop(1) obtain body' where
    "net' now url' agent timeout = Response elapsed statusCode location body' ending unread"
    by (cases "net' now url' agent timeout") auto
  with hop(2,3,5) show ?case by (subst makeRequest_armed.simps) simp
qed

lemma makeRequest_armed_same_lengths:
  assumes "\<forall>now url'. same_lengths (net now url' agent timeout) (net' now url' agent timeout)"
  shows "makeRequest_armed net url' agent timeout armed now
       = makeRequest_armed net' url' agent timeout armed now"
proof (cases "makeRequest_armed net url' agent timeout armed now")
  case (Some r)
  from makeRequest_armed_same_lengths_Some[where net = net and net' = net', OF this assms] Some
  show ?thesis by simp
next
  case None
  show ?thesis
  proof (cases "makeRequest_armed net' url' agent timeout armed now")
    case (Some r)
    from assms have "\<forall>now url'. same_lengths (net' now url' agent timeout) (net now url' agent timeout)"
      by (blast intro: same_lengths_sym)
    from makeRequest_armed_same_lengths_Some[where net = net' and net' = net, OF Some this] None
    show ?thesis by simp
  qed (simp add: None)
qed

text \<open>
  The race. A call that runs with a rejection \<open>p\<close> armed and settles does not settle
  before it starts; with an older rejection \<open>q\<close> armed as well it settles in the same
  way, unless \<open>q\<close> fires first.
\<close>

lemma armed_from_first:
  "overdue armed now' = (None :: ((error + outcome) \<times> real) option)
   \<Longrightarrow> armed_from now' (first_armed armed (late_event now' unread))"
  by (cases armed; cases unread) (auto simp: less_imp_le[OF millis_pos] split: if_splits)

lemma settle_later: "armed_from now p \<Longrightarrow> now \<le> snd r \<Longrightarrow> now \<le> snd (settle p r)"
  using settle_cases[of p r] by (cases p) auto

lemma makeRequest_armed_race:
  assumes "makeRequest_armed net url' agent timeout p now = Some r" and "armed_from now p"
  shows "now \<le> snd r
       \<and> (\<forall>q. makeRequest_armed net url' agent timeout (first_armed q p) now = Some (settle q r))"
proof -
  have "armed_from now p \<longrightarrow> now \<le> snd r
       \<and> (\<forall>q. makeRequest_armed net url' agent timeout (first_armed q p) now = Some (settle q r))"
    using assms(1)
  proof (induction rule: makeRequest_armed_induct)
    case (final url' p now)
    from final_reply[where net = net and now = now and url' = url' and agent = agent and timeout = timeout, OF final]
      settle_later[OF _ own_result_later]
    show ?case by (auto simp: settle_settle)
  next
    case (overdue url' p now elapsed statusCode location body ending unread target rejection)
    show ?case
    proof (intro impI conjI allI)
      assume a: "armed_from now p"
      from overdue(3) obtain t err where p: "p = Some (t, err)" "t < now + millis elapsed"
        "rejection = (Inl err, t)" by (auto dest!: overdue_Inl)
      with a show "now \<le> snd rejection" by simp
      fix q
      from overdue(3) have "overdue (first_armed q p) (now + millis elapsed) = Some (settle q rejection)"
        by (simp add: overdue_first_armed)
      with overdue(1,2)
      show "makeRequest_armed net url' agent timeout (first_armed q p) now = Some (settle q rejection)"
        by (subst makeRequest_armed.simps) simp
    qed
  next
    case (hop url' p now elapsed statusCode location body ending unread target r)
    let ?T = "now + millis elapsed"
    from hop(5) armed_from_first[OF hop(3)]
    have later: "?T \<le> snd r"
      and ih: "\<And>q. makeRequest_armed net target agent timeout
                 (first_armed q (first_armed p (late_event ?T unread))) ?T = Some (settle q r)"
      by blast+
    show ?case
    proof (intro impI conjI allI)
      from later millis_pos[of elapsed] show "now \<le> snd r" by simp
      fix q
      show "makeRequest_armed net url' agent timeout (first_armed q p) now = Some (settle q r)"
      proof (cases "overdue q ?T :: ((error + outcome) \<times> real) option")
        case None
        with hop(3) have "overdue (first_armed q p) ?T = (None :: ((error + outcome) \<times> real) option)"
          by (simp add: overdue_first_armed)
        with hop(1,2) ih[of q] show ?thesis
          by (subst makeRequest_armed.simps) (simp add: first_armed_assoc)
      next
        case (Some rejection)
        then obtain t err where q: "q = Some (t, err)" "t < ?T" "rejection = (Inl err, t)"
          by (auto dest!: overdue_Inl)
        with later have s: "settle q r = rejection" by (simp add: settle_def)
        from Some hop(3) have "overdue (first_armed q p) ?T = Some rejection"
          by (simp add: overdue_first_armed)
        with hop(1,2) s show ?thesis by (subst makeRequest_armed.simps) simp
      qed
    qed
  qed
  with assms(2) show ?thesis by blast
qed

text \<open>\<^verbatim>\<open>makeRequest\<close> itself: the call with nothing armed.\<close>

lemma makeRequest_final:
  assumes "redirects (net now url' agent timeout) = None"
  shows "makeRequest net url' agent timeout now = Some (own_result (net now url' agent timeout) now)"
  using final_reply[where net = net and now = now and url' = url' and agent = agent
      and timeout = timeout and armed = None, OF assms]
  by (simp add: makeRequest_def settle_None)

lemma makeRequest_finite_chain:
  "finite_chain net url' agent timeout now \<Longrightarrow> makeRequest net url' agent timeout now \<noteq> None"
  using finite_chain_settles[of net url' agent timeout now None] by (auto simp: makeRequest_def)

lemma makeRequest_speeds:
  assumes "makeRequest net url' agent timeout now = Some r"
  shows "case fst r of Inl _ \<Rightarrow> True
         | Inr out \<Rightarrow> 0 < outcome.duration out
       \<and> outcome.speedMbps out = real (bytes out) * 8 / outcome.duration out / 1000000
       \<and> outcome.speedMBps out = real (bytes out) / outcome.duration out / 1048576"
  using assms unfolding makeRequest_def by (rule makeRequest_armed_speeds)

lemma makeRequest_bytes:
  assumes "makeRequest net url' agent timeout now = Some r"
  shows "case fst r of Inl _ \<Rightarrow> True
         | Inr out \<Rightarrow> \<exists>now0 url0 elapsed statusCode location body unread.
             net now0 url0 agent timeout = Response elapsed statusCode location body End unread
           \<and> bytes out = sum_list (map length body) \<and> snd r = now0 + millis elapsed"
  using assms unfolding makeRequest_def by (rule makeRequest_armed_bytes)

lemma makeRequest_same_lengths:
  assumes "\<forall>now url'. same_lengths (net now url' agent timeout) (net' now url' agent timeout)"
  shows "makeRequest net url' agent timeout now = makeRequest net' url' agent timeout now"
  unfolding makeRequest_def using assms by (rule makeRequest_armed_same_lengths)

text \<open>
  The redirect branch in the form of the source. When the reply for \<open>A\<close> starts a
  redirect to \<open>B\<close> and the call for \<open>B\<close>, issued when the reply arrives, settles, the
  call for \<open>A\<close> settles with the earlier of the two: the event that the request for
  \<open>A\<close> emits after its unread response, and the call for \<open>B\<close>. When the request for
  \<open>A\<close> emits nothing more, the call for \<open>A\<close> is the call for \<open>B\<close>, settled or not.
\<close>

lemma makeRequest_redirect:
  assumes "net now A agent timeout = Response elapsed statusCode location body ending unread"
    and "redirect_target statusCode location = Some B"
  shows "makeRequest net A agent timeout now =
         makeRequest_armed net B agent timeout (late_event (now + millis elapsed) unread)
           (now + millis elapsed)"
  using assms unfolding makeRequest_def by (subst makeRequest_armed.simps) simp

lemma makeRequest_first_to_settle:
  assumes "net now A agent timeout = Response elapsed statusCode location body ending unread"
    and "redirect_target statusCode location = Some B"
    and "makeRequest net B agent timeout (now + millis elapsed) = Some r"
  shows "makeRequest net A agent timeout now =
         Some (settle (late_event (now + millis elapsed) unread) r)"
proof -
  from assms(3) have "makeRequest_armed net B agent timeout None (now + millis elapsed) = Some r"
    by (simp add: makeRequest_def)
  from makeRequest_armed_race[OF this] 
  have "makeRequest_armed net B agent timeout
          (first_armed (late_event (now + millis elapsed) unread) None) (now + millis elapsed)
        = Some (settle (late_event (now + millis elapsed) unread) r)"
    by simp
  with makeRequest_redirect[where net = net and now = now and A = A and agent = agent
      and timeout = timeout, OF assms(1,2)]
  show ?thesis by (simp add: first_armed_None)
qed

lemma makeRequest_redirect_closed:
  assumes "net now A agent timeout = Response elapsed statusCode location body ending Closed"
    and "redirect_target statusCode location = Some B"
  shows "makeRequest net A agent timeout now = makeRequest net B agent timeout (now + millis elapsed)"
  using makeRequest_redirect[where net = net and now = now and A = A and agent = agent
      and timeout = timeout, OF assms]
  by (simp add: makeRequest_def)

text \<open>The sample networks.\<close>

lemma makeRequest_steady:
  "makeRequest steady url' agent timeout now = Some (Inr steady_outcome, now + 1000)"
  by (subst makeRequest_final) (simp_all add: steady_def redirect_target_def steady_outcome_def millis_Ms)

lemma makeRequest_served:
  "makeRequest (served length_of) url' agent timeout now =
     Some (Inr \<lparr>bytes = length_of url', duration = 1,
                speedMbps = real (length_of url') * 8 / 1 / 1000000,
                speedMBps = real (length_of url') / 1 / 1048576\<rparr>, now + 1000)"
  by (subst makeRequest_final) (simp_all add: served_def redirect_target_def millis_Ms)

lemma makeRequest_unresponsive:
  "0 < timeout \<Longrightarrow>
   makeRequest unresponsive url' agent timeout now = Some (Inl (Error ''Timeout''), now + real timeout)"
  by (subst makeRequest_final) (simp_all add: unresponsive_def millis_Ms)


lemma makeRequest_silent_failure:
  "makeRequest silent_failure url' agent timeout now = Some (Inl (Error ''''), now + 3)"
  by (subst makeRequest_final) (simp_all add: silent_failure_def millis_Ms)

text \<open>A status other than 200 and 204 that is not a followed redirect is an error.\<close>

lemma makeRequest_not_found:
  assumes "net now url' agent timeout = Response elapsed 404 location body ending unread"
  shows "makeRequest net url' agent timeout now =
         Some (Inl (Error ''HTTP 404''), now + millis elapsed)"
  using assms
  by (subst makeRequest_final) (simp_all add: redirect_target_def show_nat.simps digit_def)

text \<open>A chain of redirects of any length is followed to its end: nothing counts the hops.\<close>

lemma makeRequest_chain:
  "makeRequest chain (replicate n c @ [c]) agent timeout now =
     Some (Inr steady_outcome, now + real n + 1000)"
proof (induction n arbitrary: now)
  case 0
  show ?case
    by (subst makeRequest_final)
       (simp_all add: chain_def redirect_target_def steady_outcome_def millis_Ms)
next
  case (Suc n)
  have "chain now (replicate (Suc n) c @ [c]) agent timeout =
        Response (Ms 1) 302 (Some (replicate n c @ [c])) [] End Closed"
    by (cases n) (simp_all add: chain_def)
  from makeRequest_redirect_closed[where net = chain and now = now and agent = agent
      and timeout = timeout and A = "replicate (Suc n) c @ [c]" and B = "replicate n c @ [c]", OF this]
  have "makeRequest chain (replicate (Suc n) c @ [c]) agent timeout now =
        makeRequest chain (replicate n c @ [c]) agent timeout (now + 1)"
    by (simp add: redirect_target_def millis_Ms)
  with Suc[of "now + 1"] show ?case by (simp add: algebra_simps)
qed

text \<open>
  An endless chain of redirects. When the servers close their connections, no request
  emits anything after its response and the call never settles. When they keep them
  open, the socket of the first request idles, and its \<^verbatim>\<open>timeout\<close> event rejects the
  call.
\<close>

lemma closing_loop_armed:
  assumes "makeRequest_armed closing_loop url' agent timeout armed now = Some r"
  shows "armed \<noteq> None"
  using assms
proof (induction rule: makeRequest_armed_induct)
  case (final url' armed now)
  then show ?case by (simp add: closing_loop_def redirect_target_def)
next
  case (overdue url' armed now elapsed statusCode location body ending unread target rejection)
  then show ?case by (cases armed) auto
next
  case (hop url' armed now elapsed statusCode location body ending unread target r)
  then show ?case by (cases armed) (auto simp: closing_loop_def)
qed

lemma closing_loop_never_settles: "makeRequest closing_loop url' agent timeout now = None"
  using closing_loop_armed[of url' agent timeout None now]
  by (cases "makeRequest closing_loop url' agent timeout now") (auto simp: makeRequest_def)

lemma keepalive_loop_armed:
  assumes "0 < timeout"
  shows "k + n = Suc timeout \<Longrightarrow>
   makeRequest_armed keepalive_loop url' agent timeout
     (Some (now + 1 + real timeout, Error ''Timeout'')) (now + real k)
   = Some (Inl (Error ''Timeout''), now + 1 + real timeout)"
proof (induction n arbitrary: k url')
  case 0
  have r: "keepalive_loop (now + real k) url' agent timeout =
           Response (Ms 1) 302 (Some ''http://a.example/'') [] End (IdleTimeout (Ms (real timeout)))"
    by (simp add: keepalive_loop_def)
  have t: "redirect_target 302 (Some ''http://a.example/'') = Some ''http://a.example/''"
    by (simp add: redirect_target_def)
  from 0 show ?case
    unfolding makeRequest_armed_redirect[where net = keepalive_loop and now = "now + real k"
      and agent = agent and timeout = timeout and A = url', OF r t]
    by (simp add: millis_Ms)
next
  case (Suc n)
  have r: "keepalive_loop (now + real k) url' agent timeout =
           Response (Ms 1) 302 (Some ''http://a.example/'') [] End (IdleTimeout (Ms (real timeout)))"
    by (simp add: keepalive_loop_def)
  from Suc.prems have k: "k \<le> timeout" by simp
  from Suc.prems have "Suc k + n = Suc timeout" by simp
  from Suc.IH[OF this, of "''http://a.example/''"]
  have i: "makeRequest_armed keepalive_loop ''http://a.example/'' agent timeout
             (Some (now + 1 + real timeout, Error ''Timeout'')) (now + real k + 1)
           = Some (Inl (Error ''Timeout''), now + 1 + real timeout)"
    by (simp add: algebra_simps)
  have a: "first_armed (Some (now + 1 + real timeout, Error ''Timeout''))
             (late_event (now + real k + 1) (IdleTimeout (Ms (real timeout))))
           = Some (now + 1 + real timeout, Error ''Timeout'')"
    using assms by (simp add: millis_Ms)
  have o: "overdue (Some (now + 1 + real timeout, Error ''Timeout'')) (now + real k + 1)
           = (None :: ((error + outcome) \<times> real) option)"
    using k by simp
  have t: "redirect_target 302 (Some ''http://a.example/'') = Some ''http://a.example/''"
    by (simp add: redirect_target_def)
  show ?case
    unfolding makeRequest_armed_redirect[where net = keepalive_loop and now = "now + real k"
      and agent = agent and timeout = timeout and A = url', OF r t]
    using a o i by (simp add: millis_Ms)
qed

lemma keepalive_loop_times_out:
  assumes "0 < timeout"
  shows "makeRequest keepalive_loop url' agent timeout now =
     Some (Inl (Error ''Timeout''), now + 1 + real timeout)"
proof -
  have r: "keepalive_loop now url' agent timeout =
           Response (Ms 1) 302 (Some ''http://a.example/'') [] End (IdleTimeout (Ms (real timeout)))"
    by (simp add: keepalive_loop_def)
  have t: "redirect_target 302 (Some ''http://a.example/'') = Some ''http://a.example/''"
    by (simp add: redirect_target_def)
  from keepalive_loop_armed[OF assms, of 1 timeout "''http://a.example/''" agent now]
  have "makeRequest_armed keepalive_loop ''http://a.example/'' agent timeout
             (Some (now + 1 + real timeout, Error ''Timeout'')) (now + 1)
           = Some (Inl (Error ''Timeout''), now + 1 + real timeout)"
    by simp
  with makeRequest_redirect[where net = keepalive_loop and now = now and agent = agent
      and timeout = timeout and A = url', OF r t] assms
  show ?thesis by (simp add: millis_Ms algebra_simps)
qed

text \<open>
  A redirect to a download that takes longer than the timeout. The data of the download
  flow all the time, so the fetch of \<open>B\<close> succeeds, also with a timeout of five
  seconds. The fetch of \<open>A\<close> is rejected when the socket of its first request, kept
  alive and idle, times out; when the server closes that connection it succeeds as the
  fetch of \<open>B\<close> does.
\<close>

lemma makeRequest_slow_redirect_B:
  "url' \<noteq> ''http://a.example/'' \<Longrightarrow>
   makeRequest slow_redirect url' agent timeout now = Some (Inr slow_outcome, now + 6000)"
  by (subst makeRequest_final)
     (simp_all add: slow_redirect_def redirect_target_def slow_outcome_def millis_Ms)

lemma makeRequest_slow_redirect_A:
  "makeRequest slow_redirect ''http://a.example/'' agent 5000 now =
     Some (Inl (Error ''Timeout''), now + 5002)"
proof -
  have r: "slow_redirect now ''http://a.example/'' agent 5000 =
           Response (Ms 2) 302 (Some ''http://b.example/'') [] End (IdleTimeout (Ms (real 5000)))"
    by (simp add: slow_redirect_def)
  have t: "redirect_target 302 (Some ''http://b.example/'') = Some ''http://b.example/''"
    by (simp add: redirect_target_def)
  from makeRequest_first_to_settle[where net = slow_redirect and now = now and agent = agent
      and timeout = 5000 and A = "''http://a.example/''", OF r t makeRequest_slow_redirect_B]
  show ?thesis by (simp add: millis_Ms settle_def)
qed

lemma makeRequest_slow_redirect_closing:
  "makeRequest slow_redirect_closing ''http://a.example/'' agent timeout now =
     Some (Inr slow_outcome, now + 6002)"
proof -
  have r: "slow_redirect_closing now ''http://a.example/'' agent timeout =
           Response (Ms 2) 302 (Some ''http://b.example/'') [] End Closed"
    by (simp add: slow_redirect_closing_def)
  have t: "redirect_target 302 (Some ''http://b.example/'') = Some ''http://b.example/''"
    by (simp add: redirect_target_def)
  have "makeRequest slow_redirect_closing ''http://b.example/'' agent timeout (now + 2)
        = Some (Inr slow_outcome, now + 2 + 6000)"
    by (subst makeRequest_final)
       (simp_all add: slow_redirect_closing_def redirect_target_def slow_outcome_def millis_Ms)
  with makeRequest_redirect_closed[where net = slow_redirect_closing and now = now
      and agent = agent and timeout = timeout and A = "''http://a.example/''", OF r t]
  show ?thesis by (simp add: millis_Ms)
qed

text \<open>The duration of a successful fetch is positive.\<close>

lemma makeRequest_duration_positive:
  "makeRequest net url' agent timeout now = Some (Inr out, now') \<Longrightarrow> 0 < outcome.duration out"
  using makeRequest_speeds[of net url' agent timeout now "(Inr out, now')"] by simp

text \<open>
  Claim C4. For every fetch that succeeds, with byte count \<open>b\<close> and a positive duration
  \<open>t\<close> in seconds, the speeds of the outcome are \<open>b * 8 / t / 1000000\<close> megabits and
  \<open>b / t / 1048576\<close> mebibytes per second, both from the byte count and the duration of
  that same outcome, however many redirects the fetch followed.
\<close>

theorem makeRequest_speed_formulas:
  assumes "makeRequest net url' agent timeout now = Some (Inr out, now')"
    and "0 < outcome.duration out"
  shows "outcome.speedMbps out = real (bytes out) * 8 / outcome.duration out / 1000000
       \<and> outcome.speedMBps out = real (bytes out) / outcome.duration out / 1048576"
  using makeRequest_speeds[OF assms(1)] by simp

theorem makeRequest_speed_formulas_witness:
  "makeRequest steady ''http://cachefly.cachefly.net/10mb.test'' None 30000 0
     = Some (Inr steady_outcome, 1000)
   \<and> outcome.duration steady_outcome = 1
   \<and> bytes steady_outcome = 1250000
   \<and> outcome.speedMbps steady_outcome = real 1250000 * 8 / 1 / 1000000
   \<and> outcome.speedMBps steady_outcome = real 1250000 / 1 / 1048576"
proof -
  have m: "makeRequest steady ''http://cachefly.cachefly.net/10mb.test'' None 30000 0
           = Some (Inr steady_outcome, 1000)"
    by (simp add: makeRequest_steady)
  have d: "0 < outcome.duration steady_outcome" by (simp add: steady_outcome_def)
  from makeRequest_speed_formulas[OF m d] m show ?thesis by (simp add: steady_outcome_def)
qed

text \<open>
  Claim C9. A response that is not a redirect, has status 200 or 204 and ends gives an
  outcome whose byte count is the sum of the lengths of its chunks, and the byte count of
  every successful fetch is that sum for the response that ended it. The bytes inside the
  chunks never reach the result: two networks whose replies agree in everything but the
  content of chunks of equal lengths give the same result, or none, for every fetch. (The
  \<^verbatim>\<open>data\<close> handler also appends each chunk to an array that nothing reads.)
\<close>

theorem makeRequest_counts_bytes_only:
  "((\<forall>now url'. same_lengths (net now url' agent timeout) (net' now url' agent timeout))
      \<longrightarrow> makeRequest net url' agent timeout now = makeRequest net' url' agent timeout now)
   \<and> (net now url' agent timeout = Response elapsed statusCode location body End unread
        \<and> redirect_target statusCode location = None \<and> (statusCode = 200 \<or> statusCode = 204)
      \<longrightarrow> (\<exists>out. makeRequest net url' agent timeout now = Some (Inr out, now + millis elapsed)
             \<and> bytes out = sum_list (map length body)))
   \<and> (makeRequest net url' agent timeout now = Some (Inr out', now')
      \<longrightarrow> (\<exists>now0 url0 elapsed0 statusCode0 location0 body0 unread0.
             net now0 url0 agent timeout =
               Response elapsed0 statusCode0 location0 body0 End unread0
             \<and> bytes out' = sum_list (map length body0) \<and> now' = now0 + millis elapsed0))"
proof -
  have "makeRequest net url' agent timeout now = makeRequest net' url' agent timeout now"
    if "\<forall>now url'. same_lengths (net now url' agent timeout) (net' now url' agent timeout)"
    using that by (rule makeRequest_same_lengths)
  moreover have "\<exists>out. makeRequest net url' agent timeout now = Some (Inr out, now + millis elapsed)
             \<and> bytes out = sum_list (map length body)"
    if "net now url' agent timeout = Response elapsed statusCode location body End unread
        \<and> redirect_target statusCode location = None \<and> (statusCode = 200 \<or> statusCode = 204)"
    using that by (subst makeRequest_final) auto
  moreover have "\<exists>now0 url0 elapsed0 statusCode0 location0 body0 unread0.
             net now0 url0 agent timeout =
               Response elapsed0 statusCode0 location0 body0 End unread0
             \<and> bytes out' = sum_list (map length body0) \<and> now' = now0 + millis elapsed0"
    if "makeRequest net url' agent timeout now = Some (Inr out', now')"
    using makeRequest_bytes[OF that] by simp
  ultimately show ?thesis by blast
qed

theorem makeRequest_counts_bytes_only_witness:
  "makeRequest zeros ''http://cachefly.cachefly.net/10mb.test'' None 30000 0
     = makeRequest digits ''http://cachefly.cachefly.net/10mb.test'' None 30000 0
   \<and> digits 0 ''http://cachefly.cachefly.net/10mb.test'' None 30000
     = Response (Ms 1000) 200 None [[1, 2, 3], [4, 5]] End Closed
   \<and> redirect_target 200 None = None
   \<and> makeRequest digits ''http://cachefly.cachefly.net/10mb.test'' None 30000 0
     = Some (Inr \<lparr>bytes = 5, duration = 1, speedMbps = 1 / 25000, speedMBps = 5 / 1048576\<rparr>, 1000)
   \<and> sum_list (map length [[1, 2, 3], [4, 5 :: 8 word]]) = 5"
proof -
  let ?u = "''http://cachefly.cachefly.net/10mb.test''"
  have s: "\<forall>now url'. same_lengths (zeros now url' None 30000) (digits now url' None 30000)"
    by (simp add: zeros_def digits_def)
  have d: "digits 0 ?u None 30000 = Response (Ms 1000) 200 None [[1, 2, 3], [4, 5]] End Closed"
    by (simp add: digits_def)
  have n: "redirect_target 200 None = None" by (simp add: redirect_target_def)
  from makeRequest_counts_bytes_only
    [where net = zeros and net' = digits and agent = None and timeout = 30000 and now = 0
       and url' = ?u] s
  have e: "makeRequest zeros ?u None 30000 0 = makeRequest digits ?u None 30000 0" by blast
  from makeRequest_counts_bytes_only
    [where net = digits and agent = None and timeout = 30000 and now = 0 and url' = ?u
       and elapsed = "Ms 1000" and statusCode = 200 and location = None
       and body = "[[1, 2, 3], [4, 5]]" and unread = Closed]
    d n
  obtain out where o: "makeRequest digits ?u None 30000 0 = Some (Inr out, 0 + millis (Ms 1000))"
    and b: "bytes out = sum_list (map length [[1, 2, 3], [4, 5 :: 8 word]])" by blast
  have v: "makeRequest digits ?u None 30000 0
     = Some (Inr \<lparr>bytes = 5, duration = 1, speedMbps = 1 / 25000, speedMBps = 5 / 1048576\<rparr>, 1000)"
    by (subst makeRequest_final) (simp_all add: digits_def redirect_target_def millis_Ms)
  from o b v have "sum_list (map length [[1, 2, 3], [4, 5 :: 8 word]]) = 5" by simp
  with e d n v show ?thesis by blast
qed

text \<open>
  Claim C7. The fetch of \<open>A\<close> is to give what the fetch of \<open>B\<close> gives. The redirect
  branch starts the fetch of \<open>B\<close> and passes its result on, but it neither reads the
  response of the first request nor removes that request's \<^verbatim>\<open>timeout\<close> and
  \<^verbatim>\<open>error\<close> handlers. Here \<open>A\<close> redirects over a connection that the server keeps
  alive, and \<open>B\<close> is a download of six seconds. Fetched with a timeout of five seconds,
  \<open>B\<close> succeeds, whether the fetch starts at once or when the redirect arrives; the
  fetch of \<open>A\<close> is rejected with \<^verbatim>\<open>Timeout\<close> five seconds after the redirect, when
  the idle socket of its first request times out.
\<close>

theorem makeRequest_redirect_times_out:
  "slow_redirect 0 ''http://a.example/'' None 5000
     = Response (Ms 2) 302 (Some ''http://b.example/'') [] End (IdleTimeout (Ms 5000))
   \<and> makeRequest slow_redirect ''http://b.example/'' None 5000 0 = Some (Inr slow_outcome, 6000)
   \<and> makeRequest slow_redirect ''http://b.example/'' None 5000 2 = Some (Inr slow_outcome, 6002)
   \<and> makeRequest slow_redirect ''http://a.example/'' None 5000 0
       = Some (Inl (Error ''Timeout''), 5002)"
  using makeRequest_slow_redirect_A[of None 0]
    makeRequest_slow_redirect_B[of "''http://b.example/''" None 5000 0]
    makeRequest_slow_redirect_B[of "''http://b.example/''" None 5000 2]
  by (simp add: slow_redirect_def)

subsection \<open>pingTest\<close>

lemma pingTest_returns:
  assumes "makeRequest net url' agent 5000 now \<noteq> None"
  shows "\<exists>latency now'. pingTest net url' agent now = Some (Inr latency, now')"
proof -
  from assms obtain r where "makeRequest net url' agent 5000 now = Some r" by blast
  then show ?thesis by (cases r; cases "fst r") (auto simp: pingTest_def)
qed

lemma pingTest_never_rejects: "pingTest net url' agent now \<noteq> Some (Inl err, now')"
  by (auto simp: pingTest_def split: option.splits sum.splits prod.splits)

text \<open>
  On the endless chain of redirects whose server keeps the connections alive, the probe
  returns \<^verbatim>\<open>null\<close> when the first socket has idled for five seconds.
\<close>

lemma pingTest_keepalive_loop:
  "pingTest keepalive_loop url' agent now = Some (Inr None, now + 5001)"
  by (simp add: pingTest_def keepalive_loop_times_out)

text \<open>
  A redirect over a connection kept alive to a download of six seconds: the probe returns
  \<^verbatim>\<open>null\<close> five seconds after the redirect, although the download succeeds.
\<close>

lemma pingTest_slow_redirect:
  "pingTest slow_redirect ''http://a.example/'' agent now = Some (Inr None, now + 5002)"
  by (simp add: pingTest_def makeRequest_slow_redirect_A)




subsection \<open>testServer\<close>

lemma testServer_target:
  assumes "testServer net server agent showProgress now = Some (r, now')"
  shows "target.truncate r = server"
  using assms
  by (auto simp: testServer_def target.truncate_def Let_def
           split: option.splits sum.splits prod.splits if_splits)

lemma testServer_error:
  assumes "testServer net server agent showProgress now = Some (r, now')" and "error r \<noteq> None"
  shows "speedMbps r = 0 \<and> speedMBps r = 0 \<and> duration r = 0"
  using assms
  by (auto simp: testServer_def Let_def split: option.splits sum.splits prod.splits if_splits)

text \<open>
  \<^verbatim>\<open>testServer\<close> is the test of a target in the words of the specification, with and
  without the display of progress.
\<close>

lemma testServer_measured:
  "testServer net server agent showProgress now = Some (r, now')
   \<longleftrightarrow> measured net agent server now r now'"
proof (cases "pingTest net (url server) agent now")
  case None
  then show ?thesis by (simp add: testServer_def measured_def)
next
  case (Some p)
  with pingTest_never_rejects[of net "url server" agent now] obtain latency now1
    where p: "pingTest net (url server) agent now = Some (Inr latency, now1)"
    by (cases p; cases "fst p") auto
  show ?thesis
  proof (cases "makeRequest net (url server) agent 30000 now1")
    case None
    with p show ?thesis by (simp add: testServer_def measured_def)
  next
    case (Some q)
    with p show ?thesis
      by (cases q; cases "fst q") (auto simp: testServer_def measured_def)
  qed
qed

lemma measured_exists:
  assumes "makeRequest net (url server) agent 5000 now \<noteq> None"
    and "\<forall>now. makeRequest net (url server) agent 30000 now \<noteq> None"
  shows "\<exists>r now'. measured net agent server now r now'"
proof -
  from pingTest_returns[OF assms(1)] obtain latency now1
    where p: "pingTest net (url server) agent now = Some (Inr latency, now1)" by blast
  from assms(2) obtain q where "makeRequest net (url server) agent 30000 now1 = Some q" by blast
  with p show ?thesis
    unfolding measured_def by (cases q; cases "fst q") fastforce+
qed

lemma measured_target: "measured net agent server now r now' \<Longrightarrow> target.truncate r = server"
  using testServer_target[of net server agent False now r now'] by (simp add: testServer_measured)

lemma testServer_steady:
  "testServer steady server agent showProgress now =
     Some (\<lparr>name = name server, url = url server, sizeMB = sizeMB server, ping = Some 1000,
            speedMbps = 10, speedMBps = 78125 / 65536, duration = 1, error = None\<rparr>, now + 2000)"
  by (simp add: testServer_def pingTest_def makeRequest_steady steady_outcome_def)

lemma testServer_served:
  "testServer (served length_of) server agent showProgress now =
     Some (\<lparr>name = name server, url = url server, sizeMB = sizeMB server, ping = Some 1000,
            speedMbps = real (length_of (url server)) * 8 / 1 / 1000000,
            speedMBps = real (length_of (url server)) / 1 / 1048576,
            duration = 1, error = None\<rparr>, now + 2000)"
  by (simp add: testServer_def pingTest_def makeRequest_served)

lemma run_tests_results:
  assumes "run_tests net agent tests results' now = Some (rs, now')" and "r \<in> set rs"
  shows "r \<in> set results' \<or> (\<exists>server n n'. testServer net server agent False n = Some (r, n'))"
  using assms
proof (induction tests arbitrary: results' now)
  case Nil
  then show ?case by simp
next
  case (Cons test rest)
  from Cons.prems(1) obtain r1 now1 where t: "testServer net test agent False now = Some (r1, now1)"
    and rest: "run_tests net agent rest (results' @ [r1]) now1 = Some (rs, now')"
    by (auto split: option.splits)
  from Cons.IH[OF rest Cons.prems(2)] t show ?case by auto
qed

lemma run_results:
  assumes "run installed net opts now = Some (Inr out, now')" and "r \<in> set (results out)"
  shows "\<exists>server agent n n'. testServer net server agent False n = Some (r, n')"
proof -
  from assms(1) obtain tests where
    "run_tests net (createAgent installed (proxy opts) True) tests [] now = Some (results out, now')"
    by (auto simp: run_def split: sum.splits option.splits)
  from run_tests_results[OF this assms(2)] show ?thesis by fastforce
qed

text \<open>
  Claim C5. A result of \<^verbatim>\<open>testServer\<close>, and so every result in what
  \<^verbatim>\<open>SpeedTest.run\<close> returns, whose error field is set has both speeds and the duration
  at zero: the three fields are written only after the fetch has succeeded, the error
  only in the \<^verbatim>\<open>catch\<close>.
\<close>

theorem testServer_error_zero_speed:
  "(testServer net server agent showProgress now = Some (r, now') \<and> error r \<noteq> None
      \<longrightarrow> speedMbps r = 0 \<and> speedMBps r = 0 \<and> duration r = 0)
   \<and> (run installed net opts now = Some (Inr out, now'') \<and> r \<in> set (results out) \<and> error r \<noteq> None
      \<longrightarrow> speedMbps r = 0 \<and> speedMBps r = 0 \<and> duration r = 0)"
proof -
  have "speedMbps r = 0 \<and> speedMBps r = 0 \<and> duration r = 0"
    if "testServer net server agent showProgress now = Some (r, now')" and "error r \<noteq> None"
    using that by (rule testServer_error)
  moreover have "speedMbps r = 0 \<and> speedMBps r = 0 \<and> duration r = 0"
    if a: "run installed net opts now = Some (Inr out, now'')" "r \<in> set (results out)"
      and e: "error r \<noteq> None"
  proof -
    from run_results[OF a] obtain server' agent' n n' where
      "testServer net server' agent' False n = Some (r, n')" by blast
    from testServer_error[OF this e] show ?thesis .
  qed
  ultimately show ?thesis by blast
qed

theorem testServer_error_zero_speed_witness:
  "testServer unresponsive cachefly10 None False 0 =
     Some (\<lparr>name = ''CacheFly 10MB'', url = ''http://cachefly.cachefly.net/10mb.test'', sizeMB = 10,
            ping = None, speedMbps = 0, speedMBps = 0, duration = 0, error = Some ''Timeout''\<rparr>, 35000)
   \<and> map_option results (returned (run False unresponsive (SpeedTest None (Some [10]) None) 0)) =
     Some [\<lparr>name = ''CacheFly 10MB'', url = ''http://cachefly.cachefly.net/10mb.test'', sizeMB = 10,
            ping = None, speedMbps = 0, speedMBps = 0, duration = 0, error = Some ''Timeout''\<rparr>]
   \<and> speedMbps (fst (the (testServer unresponsive cachefly10 None False 0))) = 0
   \<and> speedMBps (fst (the (testServer unresponsive cachefly10 None False 0))) = 0
   \<and> duration (fst (the (testServer unresponsive cachefly10 None False 0))) = 0"
proof -
  let ?r = "\<lparr>name = ''CacheFly 10MB'', url = ''http://cachefly.cachefly.net/10mb.test'', sizeMB = 10,
            ping = None, speedMbps = 0, speedMBps = 0, duration = 0, error = Some ''Timeout''\<rparr>"
  have t: "testServer unresponsive cachefly10 None False 0 = Some (?r, 35000)"
    by (simp add: testServer_def pingTest_def makeRequest_unresponsive cachefly10_def)
  have u: "run False unresponsive (SpeedTest None (Some [10]) None) 0 =
             Some (Inr \<lparr>results = [?r], statistics = None\<rparr>, 35000)"
    by (simp add: run_def SpeedTest_def createAgent_def TEST_SERVERS_get_def TEST_SERVERS_def
        size_selected_def testServer_def pingTest_def makeRequest_unresponsive
        calculate_statistics_def)
  have e: "error ?r \<noteq> None" by simp
  from testServer_error_zero_speed
    [where net = unresponsive and server = cachefly10 and agent = None and showProgress = False
       and now = 0 and r = ?r and now' = 35000 and installed = False
       and opts = "SpeedTest None (Some [10]) None"
       and out = "\<lparr>results = [?r], statistics = None\<rparr>" and now'' = 35000] t u e
  have "speedMbps ?r = 0 \<and> speedMBps ?r = 0 \<and> duration ?r = 0" by simp
  with t u show ?thesis by (simp add: returned_def)
qed

subsection \<open>SpeedTest.run: the tests it runs\<close>

text \<open>
  The loop of \<^verbatim>\<open>run\<close> over its test list tests the targets of the list in turn and
  pushes one result for each.
\<close>

lemma run_tests_measured:
  "run_tests net agent tests results' now = Some (out, now')
   \<longleftrightarrow> (\<exists>rs. out = results' @ rs \<and> measured_in_turn net agent tests now rs now')"
proof (induction tests arbitrary: results' now)
  case Nil
  show ?case by auto
next
  case (Cons test rest)
  show ?case
  proof
    assume "run_tests net agent (test # rest) results' now = Some (out, now')"
    then obtain r mid where t: "testServer net test agent False now = Some (r, mid)"
      and rest: "run_tests net agent rest (results' @ [r]) mid = Some (out, now')"
      by (auto split: option.splits)
    from rest Cons.IH[of "results' @ [r]" mid] obtain rs
      where "out = (results' @ [r]) @ rs" "measured_in_turn net agent rest mid rs now'" by blast
    with t show "\<exists>rs. out = results' @ rs \<and> measured_in_turn net agent (test # rest) now rs now'"
      by (intro exI[of _ "r # rs"]) (auto simp: testServer_measured)
  next
    assume "\<exists>rs. out = results' @ rs \<and> measured_in_turn net agent (test # rest) now rs now'"
    then obtain r rs mid where o: "out = results' @ r # rs"
      and m: "measured net agent test now r mid"
      and rest: "measured_in_turn net agent rest mid rs now'" by auto
    from m have "testServer net test agent False now = Some (r, mid)"
      by (simp add: testServer_measured)
    moreover from o rest Cons.IH[of "results' @ [r]" mid]
    have "run_tests net agent rest (results' @ [r]) mid = Some (out, now')" by auto
    ultimately show "run_tests net agent (test # rest) results' now = Some (out, now')" by simp
  qed
qed

lemma measured_in_turn_targets:
  "measured_in_turn net agent tests now rs now' \<Longrightarrow> map target.truncate rs = tests"
  by (induction tests arbitrary: now rs) (auto simp: measured_target)

lemma measured_in_turn_exists:
  "requests_settle net agent tests \<Longrightarrow> \<exists>rs now'. measured_in_turn net agent tests now rs now'"
proof (induction tests arbitrary: now)
  case Nil
  show ?case by simp
next
  case (Cons test rest)
  from Cons.prems have "makeRequest net (url test) agent 5000 now \<noteq> None"
    and "\<forall>now. makeRequest net (url test) agent 30000 now \<noteq> None"
    and "requests_settle net agent rest"
    by (simp_all add: requests_settle_def)
  from measured_exists[OF this(1,2)] Cons.IH[OF this(3)] show ?case
    by simp blast
qed

lemma TEST_SERVERS_get_own:
  "key \<notin> set Object_prototype_keys \<Longrightarrow>
   TEST_SERVERS_get key = (case map_of TEST_SERVERS key of Some l \<Rightarrow> Own l | None \<Rightarrow> Undefined)"
  by (simp add: TEST_SERVERS_get_def split: option.splits)

lemma build_test_list_requested:
  assumes "\<forall>key\<in>set keys. key \<notin> set Object_prototype_keys"
  shows "build_test_list keys sizes' tests = Inr (tests @ requested_targets keys sizes')"
  using assms
proof (induction keys arbitrary: tests)
  case Nil
  then show ?case by (simp add: requested_targets_def)
next
  case (Cons key keys)
  then have "key \<notin> set Object_prototype_keys" by simp
  from TEST_SERVERS_get_own[OF this] Cons show ?case
    by (simp add: requested_targets_def split: option.splits)
qed

text \<open>
  A key that the catalog object inherits makes the loop throw, and the run rejects before
  any request, whatever else is requested.
\<close>

lemma build_test_list_inherited:
  assumes "key \<in> set keys" and "key \<in> set Object_prototype_keys"
  shows "build_test_list keys sizes' tests = Inl (TypeError ''TEST_SERVERS[serverKey] is not iterable'')"
  using assms
proof (induction keys arbitrary: tests)
  case Nil
  then show ?case by simp
next
  case (Cons k keys)
  show ?case
  proof (cases "TEST_SERVERS_get k")
    case Inherited
    then show ?thesis by simp
  next
    case (Own list)
    then have "k \<notin> set Object_prototype_keys"
      by (auto simp: TEST_SERVERS_get_def TEST_SERVERS_def Object_prototype_keys_def split: if_splits)
    with Cons Own show ?thesis by auto
  next
    case Undefined
    then have "k \<notin> set Object_prototype_keys"
      by (auto simp: TEST_SERVERS_get_def split: option.splits if_splits)
    with Cons Undefined show ?thesis by auto
  qed
qed

lemma run_inherited_key:
  assumes "key \<in> set (servers opts)" and "key \<in> set Object_prototype_keys"
  shows "run installed net opts now =
           Some (Inl (TypeError ''TEST_SERVERS[serverKey] is not iterable''), now)"
  using build_test_list_inherited[OF assms] by (simp add: run_def)

text \<open>
  Without such a key, the run resolves exactly when the tests of the requested targets,
  one after the other, all end, and then with their results and the statistics of these.
\<close>

lemma run_measured:
  assumes "\<forall>key\<in>set (servers opts). key \<notin> set Object_prototype_keys"
  shows "run installed net opts now = Some (Inr out, now')
     \<longleftrightarrow> measured_in_turn net (createAgent installed (proxy opts) True)
           (requested_targets (servers opts) (sizes opts)) now (results out) now'
         \<and> statistics out = calculate_statistics (results out)"
proof -
  let ?agent = "createAgent installed (proxy opts) True"
  let ?tests = "requested_targets (servers opts) (sizes opts)"
  from build_test_list_requested[OF assms]
  have b: "build_test_list (servers opts) (sizes opts) [] = Inr ?tests" by simp
  show ?thesis
  proof (cases "run_tests net ?agent ?tests [] now")
    case None
    with run_tests_measured[of net ?agent ?tests "[]" now "results out" now'] b
    show ?thesis by (simp add: run_def)
  next
    case (Some q)
    obtain rs n where q: "q = (rs, n)" by (cases q)
    with Some run_tests_measured[of net ?agent ?tests "[]" now rs n]
    have m: "measured_in_turn net ?agent ?tests now rs n" by simp
    from Some q b have r: "run installed net opts now =
        Some (Inr \<lparr>results = rs, statistics = calculate_statistics rs\<rparr>, n)"
      by (simp add: run_def)
    show ?thesis
    proof
      assume "run installed net opts now = Some (Inr out, now')"
      with r m show "measured_in_turn net ?agent ?tests now (results out) now'
         \<and> statistics out = calculate_statistics (results out)" by auto
    next
      assume a: "measured_in_turn net ?agent ?tests now (results out) now'
         \<and> statistics out = calculate_statistics (results out)"
      with run_tests_measured[of net ?agent ?tests "[]" now "results out" now'] Some q
      have "rs = results out" "n = now'" by simp_all
      with a r show "run installed net opts now = Some (Inr out, now')" by (cases out) simp
    qed
  qed
qed

lemma run_returns:
  assumes "\<forall>key\<in>set (servers opts). key \<notin> set Object_prototype_keys"
    and "requests_settle net (createAgent installed (proxy opts) True)
           (requested_targets (servers opts) (sizes opts))"
  shows "\<exists>out now'. run installed net opts now = Some (Inr out, now')
           \<and> measured_in_turn net (createAgent installed (proxy opts) True)
                (requested_targets (servers opts) (sizes opts)) now (results out) now'
           \<and> statistics out = calculate_statistics (results out)"
proof -
  from measured_in_turn_exists[OF assms(2), of now] obtain rs now' where
    m: "measured_in_turn net (createAgent installed (proxy opts) True)
          (requested_targets (servers opts) (sizes opts)) now rs now'" by blast
  let ?out = "\<lparr>results = rs, statistics = calculate_statistics rs\<rparr>"
  from m run_measured[OF assms(1), of installed net now ?out now']
  have "run installed net opts now = Some (Inr ?out, now')" by simp
  with m show ?thesis by (intro exI[of _ ?out] exI[of _ now']) simp
qed

lemma tested_run:
  assumes "\<forall>key\<in>set (servers opts). key \<notin> set Object_prototype_keys"
    and "requests_settle net (createAgent installed (proxy opts) True)
           (requested_targets (servers opts) (sizes opts))"
  shows "tested (run installed net opts now) = Some (requested_targets (servers opts) (sizes opts))"
proof -
  from run_returns[OF assms, of now] obtain out now' where
    "run installed net opts now = Some (Inr out, now')"
    "measured_in_turn net (createAgent installed (proxy opts) True)
       (requested_targets (servers opts) (sizes opts)) now (results out) now'" by blast
  with measured_in_turn_targets[OF this(2)] show ?thesis by (simp add: tested_def)
qed

text \<open>On the sample networks without redirects every request settles.\<close>

lemma requests_settle_steady: "requests_settle steady agent tests"
  by (simp add: requests_settle_def makeRequest_steady)

lemma requests_settle_served: "requests_settle (served length_of) agent tests"
  by (simp add: requests_settle_def makeRequest_served)

text \<open>So does every request whose chain of redirects is finite.\<close>

lemma requests_settle_finite_chains:
  "\<forall>url' timeout now. finite_chain net url' agent timeout now \<Longrightarrow> requests_settle net agent tests"
  by (simp add: requests_settle_def makeRequest_finite_chain)

text \<open>Facts of the catalog: its keys are distinct, and so are all its targets.\<close>

lemma distinct_keys: "distinct (map fst TEST_SERVERS)"
  by (simp add: TEST_SERVERS_def)

lemma distinct_targets: "distinct (concat (map snd TEST_SERVERS))"
  by (simp add: TEST_SERVERS_def)

lemma set_requested_targets:
  "set (requested_targets keys sizes') = set (catalog_filter keys sizes')"
proof -
  have m: "map_of TEST_SERVERS k = Some l \<longleftrightarrow> (k, l) \<in> set TEST_SERVERS" for k l
    using distinct_keys by (rule map_of_eq_Some_iff)
  have "set (requested_targets keys sizes') =
        {t. \<exists>k l. k \<in> set keys \<and> map_of TEST_SERVERS k = Some l \<and> t \<in> set l \<and> size_selected sizes' t}"
    unfolding requested_targets_def
    by (auto split: option.splits) (metis option.sel)
  also have "\<dots> = set (catalog_filter keys sizes')"
    unfolding catalog_filter_def m by auto
  finally show ?thesis .
qed

lemma requested_in_catalog_order_gen:
  assumes "distinct (map fst cat)" and "subseq keys (map fst cat)"
  shows "concat (map (\<lambda>key. case map_of cat key of Some l \<Rightarrow> filter P l | None \<Rightarrow> []) keys) =
         concat (map (\<lambda>(key, l). filter (\<lambda>t. key \<in> set keys \<and> P t) l) cat)"
  using assms
proof (induction cat arbitrary: keys)
  case Nil
  then show ?case by simp
next
  case (Cons e cat)
  obtain k0 l0 where e: "e = (k0, l0)" by (cases e)
  from Cons.prems(1) e have d: "distinct (map fst cat)" and k0: "k0 \<notin> fst ` set cat" by auto
  have tail: "concat (map (\<lambda>key. case map_of (e # cat) key of Some l \<Rightarrow> filter P l | None \<Rightarrow> []) ks) =
              concat (map (\<lambda>(key, l). filter (\<lambda>t. key \<in> set ks \<and> P t) l) cat)"
    if s: "subseq ks (map fst cat)" for ks
  proof -
    from s have "set ks \<subseteq> fst ` set cat" by (auto elim: list_emb_set)
    with k0 have "k0 \<notin> set ks" by auto
    then have "map (\<lambda>key. case map_of (e # cat) key of Some l \<Rightarrow> filter P l | None \<Rightarrow> []) ks =
               map (\<lambda>key. case map_of cat key of Some l \<Rightarrow> filter P l | None \<Rightarrow> []) ks"
      by (intro map_cong) (auto simp: e)
    then have "concat (map (\<lambda>key. case map_of (e # cat) key of Some l \<Rightarrow> filter P l | None \<Rightarrow> []) ks) =
               concat (map (\<lambda>key. case map_of cat key of Some l \<Rightarrow> filter P l | None \<Rightarrow> []) ks)"
      by (rule arg_cong)
    also note Cons.IH[OF d s]
    finally show ?thesis .
  qed
  have rest: "concat (map (\<lambda>(key, l). filter (\<lambda>t. (key = k0 \<or> key \<in> set ks) \<and> P t) l) cat) =
              concat (map (\<lambda>(key, l). filter (\<lambda>t. key \<in> set ks \<and> P t) l) cat)" for ks
  proof -
    have "map (\<lambda>(key, l). filter (\<lambda>t. (key = k0 \<or> key \<in> set ks) \<and> P t) l) cat =
          map (\<lambda>(key, l). filter (\<lambda>t. key \<in> set ks \<and> P t) l) cat"
      using k0 by (intro map_cong) (auto simp: image_iff)
    then show ?thesis by (rule arg_cong)
  qed
  from Cons.prems(2) e consider
    (skip) "subseq keys (map fst cat)" | (take) ks where "keys = k0 # ks" "subseq ks (map fst cat)"
    by (cases keys) (auto simp: subseq_Cons2_iff split: if_splits)
  then show ?case
  proof cases
    case skip
    then have "set keys \<subseteq> fst ` set cat" by (auto elim: list_emb_set)
    with k0 have "k0 \<notin> set keys" by auto
    with tail[OF skip] show ?thesis by (simp add: e)
  next
    case take
    from tail[OF take(2)] rest[of ks] take(1) show ?thesis by (simp add: e)
  qed
qed

lemma requested_in_catalog_order:
  "subseq keys (map fst TEST_SERVERS) \<Longrightarrow> requested_targets keys sizes' = catalog_filter keys sizes'"
  unfolding requested_targets_def catalog_filter_def
  by (rule requested_in_catalog_order_gen[OF distinct_keys])

lemma requested_known_keys:
  "requested_targets (filter (\<lambda>key. map_of TEST_SERVERS key \<noteq> None) keys) sizes' =
   requested_targets keys sizes'"
  unfolding requested_targets_def by (induction keys) auto

text \<open>
  Claim C1, as stated, fails on the order: the loop runs over the requested keys, so the
  results follow the order of the request, not of the catalog. Requested as
  \<^verbatim>\<open>ovh\<close> then \<^verbatim>\<open>cloudflare\<close>, the targets of \<^verbatim>\<open>ovh\<close> are tested first, while
  the catalog lists \<^verbatim>\<open>cloudflare\<close> first.
\<close>

theorem catalog_order_counterexample:
  "map_option (map name)
     (tested (run False steady (SpeedTest (Some [''ovh'', ''cloudflare'']) None None) 0))
     = Some [''OVH 10MB'', ''OVH 100MB'', ''Cloudflare 10MB'', ''Cloudflare 100MB'']
   \<and> map name (catalog_filter [''ovh'', ''cloudflare''] None)
     = [''Cloudflare 10MB'', ''Cloudflare 100MB'', ''OVH 10MB'', ''OVH 100MB'']"
  by (simp add: tested_def run_def SpeedTest_def createAgent_def TEST_SERVERS_get_def
      TEST_SERVERS_def Object_prototype_keys_def size_selected_def testServer_steady
      target.truncate_def catalog_filter_def)

text \<open>
  Claim C1, amended. When no requested key is the name of a property that the catalog
  object inherits: the run resolves when the probe and the fetch of every selected target
  settle; and whenever it resolves, it has tested in turn, each with the probe and the
  fetch of its URL, the selected targets of the requested keys, one result each: the keys
  in the order of the request, each as often as it is requested, the targets of a key in
  catalog order. The targets tested are, as a set, exactly those of the filter of the
  specification, so none lies outside it; when the requested keys are a subsequence of the
  catalog's keys the list is the filter in catalog order; and a requested key that is no
  provider of the catalog adds nothing.
\<close>

theorem run_tests_requested_targets:
  assumes "\<forall>key\<in>set (servers opts). key \<notin> set Object_prototype_keys"
  shows "(requests_settle net (createAgent installed (proxy opts) True)
             (requested_targets (servers opts) (sizes opts))
          \<longrightarrow> (\<exists>out now'. run installed net opts now = Some (Inr out, now'))
            \<and> tested (run installed net opts now)
                = Some (requested_targets (servers opts) (sizes opts)))
     \<and> (run installed net opts now = Some (Inr out, now')
          \<longrightarrow> measured_in_turn net (createAgent installed (proxy opts) True)
                 (requested_targets (servers opts) (sizes opts)) now (results out) now'
            \<and> map target.truncate (results out) = requested_targets (servers opts) (sizes opts))
     \<and> set (requested_targets (servers opts) (sizes opts))
         = set (catalog_filter (servers opts) (sizes opts))
     \<and> (subseq (servers opts) (map fst TEST_SERVERS) \<longrightarrow>
          requested_targets (servers opts) (sizes opts) = catalog_filter (servers opts) (sizes opts))
     \<and> requested_targets (filter (\<lambda>key. map_of TEST_SERVERS key \<noteq> None) (servers opts)) (sizes opts)
         = requested_targets (servers opts) (sizes opts)"
proof -
  have "(\<exists>out now'. run installed net opts now = Some (Inr out, now'))
      \<and> tested (run installed net opts now) = Some (requested_targets (servers opts) (sizes opts))"
    if "requests_settle net (createAgent installed (proxy opts) True)
          (requested_targets (servers opts) (sizes opts))"
    using run_returns[OF assms that, of now] tested_run[OF assms that, of now] by blast
  moreover have "measured_in_turn net (createAgent installed (proxy opts) True)
                 (requested_targets (servers opts) (sizes opts)) now (results out) now'
            \<and> map target.truncate (results out) = requested_targets (servers opts) (sizes opts)"
    if "run installed net opts now = Some (Inr out, now')"
  proof -
    from that run_measured[OF assms, of installed net now out now']
    have "measured_in_turn net (createAgent installed (proxy opts) True)
                 (requested_targets (servers opts) (sizes opts)) now (results out) now'" by simp
    with measured_in_turn_targets[OF this] show ?thesis by simp
  qed
  ultimately show ?thesis
    using set_requested_targets[of "servers opts" "sizes opts"]
      requested_in_catalog_order[of "servers opts" "sizes opts"]
      requested_known_keys[of "servers opts" "sizes opts"]
    by blast
qed

theorem run_tests_requested_targets_witness:
  "requests_settle steady None
     [\<lparr>name = ''OVH 10MB'', url = ''https://proof.ovh.net/files/10Mb.dat'', sizeMB = 10\<rparr>, cachefly10]
   \<and> map_option (map name \<circ> results)
        (returned (run False steady (SpeedTest (Some [''ovh'', ''nowhere'', ''cachefly'']) (Some [10]) None) 0))
       = Some [''OVH 10MB'', ''CacheFly 10MB'']
   \<and> tested (run False steady (SpeedTest (Some [''ovh'', ''nowhere'', ''cachefly'']) (Some [10]) None) 0)
       = Some [\<lparr>name = ''OVH 10MB'', url = ''https://proof.ovh.net/files/10Mb.dat'', sizeMB = 10\<rparr>,
               cachefly10]
   \<and> set (catalog_filter [''ovh'', ''nowhere'', ''cachefly''] (Some [10]))
       = {\<lparr>name = ''OVH 10MB'', url = ''https://proof.ovh.net/files/10Mb.dat'', sizeMB = 10\<rparr>,
          cachefly10}
   \<and> subseq [''cachefly'', ''ovh''] (map fst TEST_SERVERS)
   \<and> tested (run False steady (SpeedTest (Some [''cachefly'', ''ovh'']) (Some [10]) None) 0)
       = Some (catalog_filter [''cachefly'', ''ovh''] (Some [10]))
   \<and> catalog_filter [''cachefly'', ''ovh''] (Some [10])
       = [cachefly10,
          \<lparr>name = ''OVH 10MB'', url = ''https://proof.ovh.net/files/10Mb.dat'', sizeMB = 10\<rparr>]"
proof -
  let ?opts = "\<lparr>servers = [''ovh'', ''nowhere'', ''cachefly''], sizes = Some [10], proxy = None\<rparr>"
  let ?opts' = "\<lparr>servers = [''cachefly'', ''ovh''], sizes = Some [10], proxy = None\<rparr>"
  let ?ovh = "\<lparr>name = ''OVH 10MB'', url = ''https://proof.ovh.net/files/10Mb.dat'', sizeMB = 10\<rparr>"
  have o: "SpeedTest (Some [''ovh'', ''nowhere'', ''cachefly'']) (Some [10]) None = ?opts"
    and o': "SpeedTest (Some [''cachefly'', ''ovh'']) (Some [10]) None = ?opts'"
    by (simp_all add: SpeedTest_def)
  have k: "\<forall>key\<in>set (servers ?opts). key \<notin> set Object_prototype_keys"
    and k': "\<forall>key\<in>set (servers ?opts'). key \<notin> set Object_prototype_keys"
    by (simp_all add: Object_prototype_keys_def)
  have r: "requested_targets (servers ?opts) (sizes ?opts) = [?ovh, cachefly10]"
    by (simp add: requested_targets_def TEST_SERVERS_def size_selected_def cachefly10_def)
  have s: "requests_settle steady (createAgent False (proxy ?opts) True)
             (requested_targets (servers ?opts) (sizes ?opts))"
    and s': "requests_settle steady (createAgent False (proxy ?opts') True)
             (requested_targets (servers ?opts') (sizes ?opts'))"
    by (rule requests_settle_steady)+
  have q: "subseq [''cachefly'', ''ovh''] (map fst TEST_SERVERS)"
    by (simp add: TEST_SERVERS_def)
  have c: "catalog_filter [''cachefly'', ''ovh''] (Some [10]) = [cachefly10, ?ovh]"
    by (simp add: catalog_filter_def TEST_SERVERS_def size_selected_def cachefly10_def)
  note at_opts = run_tests_requested_targets[OF k, where net = steady and installed = False and now = 0]
  from at_opts[THEN conjunct1] s r
  have e: "\<exists>out now'. run False steady ?opts 0 = Some (Inr out, now')"
    and 1: "tested (run False steady ?opts 0) = Some [?ovh, cachefly10]"
    by simp_all
  from at_opts[THEN conjunct2, THEN conjunct2, THEN conjunct1] r
  have 2: "set (catalog_filter [''ovh'', ''nowhere'', ''cachefly''] (Some [10])) = {?ovh, cachefly10}"
    by simp
  from e obtain out now' where u: "run False steady ?opts 0 = Some (Inr out, now')" by blast
  from at_opts[where out = out and now' = now', THEN conjunct2, THEN conjunct1] u r
  have "map target.truncate (results out) = [?ovh, cachefly10]" by simp
  then have "map (name \<circ> target.truncate) (results out) = map name [?ovh, cachefly10]"
    unfolding map_map[symmetric] by simp
  then have "map name (results out) = [''OVH 10MB'', ''CacheFly 10MB'']"
    by (simp add: target.truncate_def cachefly10_def comp_def)
  with u have 5: "map_option (map name \<circ> results) (returned (run False steady ?opts 0))
       = Some [''OVH 10MB'', ''CacheFly 10MB'']"
    by (simp add: returned_def)
  note at_opts' = run_tests_requested_targets[OF k', where net = steady and installed = False and now = 0]
  from at_opts'[THEN conjunct1] at_opts'[THEN conjunct2, THEN conjunct2, THEN conjunct2, THEN conjunct1] s' q
  have 3: "tested (run False steady ?opts' 0) = Some (catalog_filter [''cachefly'', ''ovh''] (Some [10]))"
    by simp
  from s r have 4: "requests_settle steady None [?ovh, cachefly10]"
    by (simp add: createAgent_def)
  from 1 2 3 4 5 q c show ?thesis unfolding o o' by simp
qed

text \<open>
  Requested as \<^verbatim>\<open>all\<close>, the constructor takes the keys of the catalog in their order,
  and the run tests the filter of the catalog in catalog order.
\<close>

lemma run_all_in_catalog_order:
  assumes "requests_settle net (createAgent installed (if truthy proxy' then proxy' else None) True)
             (catalog_filter (map fst TEST_SERVERS) sizes')"
  shows "tested (run installed net (SpeedTest (Some [''all'']) sizes' proxy') now) =
         Some (catalog_filter (map fst TEST_SERVERS) sizes')"
proof -
  let ?opts = "SpeedTest (Some [''all'']) sizes' proxy'"
  have s: "servers ?opts = map fst TEST_SERVERS" and z: "sizes ?opts = sizes'"
    and p: "proxy ?opts = (if truthy proxy' then proxy' else None)"
    by (simp_all add: SpeedTest_def)
  have k: "\<forall>key\<in>set (servers ?opts). key \<notin> set Object_prototype_keys"
    unfolding s by (simp add: TEST_SERVERS_def Object_prototype_keys_def)
  have e: "requested_targets (map fst TEST_SERVERS) sizes' = catalog_filter (map fst TEST_SERVERS) sizes'"
    by (rule requested_in_catalog_order) simp
  from assms have "requests_settle net (createAgent installed (proxy ?opts) True)
             (requested_targets (servers ?opts) (sizes ?opts))"
    unfolding s z p e .
  from tested_run[OF k this, of now] show ?thesis unfolding s z e .
qed

lemma count_list_concat:
  "count_list (concat xss) x = sum_list (map (\<lambda>xs. count_list xs x) xss)"
  by (induction xss) auto

lemma count_list_filter: "count_list (filter P xs) x = (if P x then count_list xs x else 0)"
  by (induction xs) auto

lemma count_list_distinct: "distinct xs \<Longrightarrow> count_list xs x = (if x \<in> set xs then 1 else 0)"
  by (induction xs) auto

lemma sum_list_indicator: "sum_list (map (\<lambda>k. if k = key then 1 else 0) keys) = count_list keys key"
  by (induction keys) auto

lemma distinct_entry:
  "distinct (concat (map snd cat)) \<Longrightarrow> (k, l) \<in> set cat \<Longrightarrow> distinct l"
  by (induction cat) auto

lemma disjoint_entries:
  "distinct (concat (map snd cat)) \<Longrightarrow> (k, l) \<in> set cat \<Longrightarrow> (k', l') \<in> set cat \<Longrightarrow> k \<noteq> k'
   \<Longrightarrow> set l \<inter> set l' = {}"
proof (induction cat)
  case Nil
  then show ?case by simp
next
  case (Cons e cat)
  then show ?case by (cases e) fastforce
qed

lemma catalog_count:
  assumes "map_of TEST_SERVERS key = Some list" and "server \<in> set list"
  shows "count_list (case map_of TEST_SERVERS k of Some l \<Rightarrow> filter P l | None \<Rightarrow> []) server =
         (if k = key \<and> P server then 1 else 0)"
proof (cases "map_of TEST_SERVERS k")
  case None
  with assms show ?thesis by auto
next
  case (Some l)
  from assms(1) have e: "(key, list) \<in> set TEST_SERVERS" by (rule map_of_SomeD)
  from Some have e': "(k, l) \<in> set TEST_SERVERS" by (rule map_of_SomeD)
  show ?thesis
  proof (cases "k = key")
    case True
    with Some assms have "l = list" by simp
    moreover from distinct_entry[OF distinct_targets e] have "distinct list" .
    ultimately show ?thesis using Some True assms(2)
      by (simp add: count_list_filter count_list_distinct)
  next
    case False
    from disjoint_entries[OF distinct_targets e' e False] assms(2) have "server \<notin> set l" by auto
    with Some False show ?thesis by (simp add: count_list_filter count_list_0_iff)
  qed
qed

lemma count_requested_targets:
  assumes "map_of TEST_SERVERS key = Some list" and "server \<in> set list"
    and "size_selected sizes' server"
  shows "count_list (requested_targets keys sizes') server = count_list keys key"
proof -
  have "count_list (requested_targets keys sizes') server =
        sum_list (map (\<lambda>k. if k = key then 1 else 0) keys)"
    unfolding requested_targets_def count_list_concat map_map comp_def
    using catalog_count[OF assms(1,2), where P = "size_selected sizes'"] assms(3)
    by simp
  then show ?thesis by (simp add: sum_list_indicator)
qed

text \<open>
  Claim C10, as stated, fails in two ways. With a key among the requested ones that the
  catalog object inherits, here \<^verbatim>\<open>constructor\<close>, the loop throws when it reaches that
  key and the run rejects without having tested anything, although \<^verbatim>\<open>cachefly\<close> is
  requested twice. And on an endless chain of redirects whose servers close their
  connections the first probe never returns, so the run never resolves.
\<close>

theorem duplicate_keys_counterexample:
  "run False steady (SpeedTest (Some [''cachefly'', ''cachefly'', ''constructor'']) None None) 0
     = Some (Inl (TypeError ''TEST_SERVERS[serverKey] is not iterable''), 0)
   \<and> run False closing_loop (SpeedTest (Some [''cachefly'', ''cachefly'']) None None) 0 = None"
  by (simp add: run_def SpeedTest_def createAgent_def TEST_SERVERS_get_def TEST_SERVERS_def
      Object_prototype_keys_def size_selected_def testServer_def pingTest_def
      closing_loop_never_settles)

text \<open>
  Claim C10, amended. The loop over the requested keys does not deduplicate them. When no
  requested key is the name of a property that the catalog object inherits, a selected
  target of a catalog provider is on the list of the run as many times as its provider
  key occurs in the request; the run resolves when the probe and the fetch of every
  selected target settle; and whenever it resolves, it has tested in turn the targets of
  the list, each with the probe and the fetch of its URL, so that the target is among the
  results that many times.
\<close>

theorem run_tests_each_occurrence:
  assumes "\<forall>k\<in>set (servers opts). k \<notin> set Object_prototype_keys"
    and "map_of TEST_SERVERS key = Some list" and "server \<in> set list"
    and "size_selected (sizes opts) server"
  shows "count_list (requested_targets (servers opts) (sizes opts)) server
           = count_list (servers opts) key
     \<and> (requests_settle net (createAgent installed (proxy opts) True)
            (requested_targets (servers opts) (sizes opts))
          \<longrightarrow> (\<exists>out now'. run installed net opts now = Some (Inr out, now')))
     \<and> (run installed net opts now = Some (Inr out, now')
          \<longrightarrow> measured_in_turn net (createAgent installed (proxy opts) True)
                (requested_targets (servers opts) (sizes opts)) now (results out) now'
            \<and> count_list (map target.truncate (results out)) server
                = count_list (servers opts) key)"
proof -
  have c: "count_list (requested_targets (servers opts) (sizes opts)) server
           = count_list (servers opts) key"
    using assms(2,3,4) by (rule count_requested_targets)
  moreover have "\<exists>out now'. run installed net opts now = Some (Inr out, now')"
    if "requests_settle net (createAgent installed (proxy opts) True)
          (requested_targets (servers opts) (sizes opts))"
    using run_returns[OF assms(1) that, of now] by blast
  moreover have "measured_in_turn net (createAgent installed (proxy opts) True)
                (requested_targets (servers opts) (sizes opts)) now (results out) now'
            \<and> count_list (map target.truncate (results out)) server
                = count_list (servers opts) key"
    if "run installed net opts now = Some (Inr out, now')"
  proof -
    from that run_measured[OF assms(1), of installed net now out now']
    have "measured_in_turn net (createAgent installed (proxy opts) True)
                 (requested_targets (servers opts) (sizes opts)) now (results out) now'" by simp
    with measured_in_turn_targets[OF this] c show ?thesis by simp
  qed
  ultimately show ?thesis by blast
qed

theorem run_tests_each_occurrence_witness:
  "requests_settle steady None [cachefly10, cachefly100, cachefly10, cachefly100]
   \<and> map_of TEST_SERVERS ''cachefly'' = Some [cachefly10, cachefly100]
   \<and> size_selected None cachefly10
   \<and> count_list [''cachefly'', ''cachefly''] ''cachefly'' = 2
   \<and> map_option (\<lambda>out. count_list (map target.truncate (results out)) cachefly10)
        (returned (run False steady (SpeedTest (Some [''cachefly'', ''cachefly'']) None None) 0))
      = Some 2
   \<and> map_option (map name \<circ> results)
        (returned (run False steady (SpeedTest (Some [''cachefly'', ''cachefly'']) None None) 0))
      = Some [''CacheFly 10MB'', ''CacheFly 100MB'', ''CacheFly 10MB'', ''CacheFly 100MB'']"
proof -
  let ?opts = "\<lparr>servers = [''cachefly'', ''cachefly''], sizes = None, proxy = None\<rparr>"
  have o: "SpeedTest (Some [''cachefly'', ''cachefly'']) None None = ?opts"
    by (simp add: SpeedTest_def)
  have k: "\<forall>k\<in>set (servers ?opts). k \<notin> set Object_prototype_keys"
    by (simp add: Object_prototype_keys_def)
  have m: "map_of TEST_SERVERS ''cachefly'' = Some [cachefly10, cachefly100]"
    by (simp add: TEST_SERVERS_def cachefly10_def cachefly100_def)
  have l: "requested_targets (servers ?opts) (sizes ?opts)
           = [cachefly10, cachefly100, cachefly10, cachefly100]"
    by (simp add: requested_targets_def m size_selected_def)
  have s: "requests_settle steady (createAgent False (proxy ?opts) True)
             (requested_targets (servers ?opts) (sizes ?opts))"
    by (rule requests_settle_steady)
  have z: "size_selected (sizes ?opts) cachefly10" by (simp add: size_selected_def)
  have i: "cachefly10 \<in> set [cachefly10, cachefly100]" by simp
  note at_opts = run_tests_each_occurrence[OF k m i z, where net = steady and installed = False and now = 0]
  from at_opts[THEN conjunct2, THEN conjunct1] s
  obtain out now' where r: "run False steady ?opts 0 = Some (Inr out, now')" by blast
  from at_opts[where out = out and now' = now', THEN conjunct2, THEN conjunct2] r
  have t: "measured_in_turn steady (createAgent False (proxy ?opts) True)
          (requested_targets (servers ?opts) (sizes ?opts)) 0 (results out) now'"
    and c: "count_list (map target.truncate (results out)) cachefly10 = count_list (servers ?opts) ''cachefly''"
    by blast+
  from r c have 1: "map_option (\<lambda>out. count_list (map target.truncate (results out)) cachefly10)
        (returned (run False steady ?opts 0)) = Some 2"
    by (simp add: returned_def)
  from measured_in_turn_targets[OF t] l
  have "map target.truncate (results out) = [cachefly10, cachefly100, cachefly10, cachefly100]"
    by simp
  then have "map (name \<circ> target.truncate) (results out)
           = map name [cachefly10, cachefly100, cachefly10, cachefly100]"
    unfolding map_map[symmetric] by simp
  then have "map name (results out)
           = [''CacheFly 10MB'', ''CacheFly 100MB'', ''CacheFly 10MB'', ''CacheFly 100MB'']"
    by (simp add: target.truncate_def cachefly10_def cachefly100_def comp_def)
  with r have 2: "map_option (map name \<circ> results) (returned (run False steady ?opts 0))
      = Some [''CacheFly 10MB'', ''CacheFly 100MB'', ''CacheFly 10MB'', ''CacheFly 100MB'']"
    by (simp add: returned_def)
  from s l have 3: "requests_settle steady None [cachefly10, cachefly100, cachefly10, cachefly100]"
    by (simp add: createAgent_def)
  from 1 2 3 m z show ?thesis unfolding o by simp
qed

subsection \<open>Statistics\<close>

lemma foldl_add: "foldl (\<lambda>a b. a + b) a xs = a + sum_list xs" for a :: real
  by (induction xs arbitrary: a) auto

lemma average_sum: "average xs = sum_list xs / real (length xs)"
  by (simp add: average_def foldl_add)

lemma Math_max_Max: "xs \<noteq> [] \<Longrightarrow> Math_max xs = Num (Max (set xs))"
proof (induction xs)
  case Nil then show ?case by simp
next
  case (Cons x xs)
  then show ?case by (cases "xs = []") (auto simp: max_def Max_insert)
qed

lemma Math_min_Min: "xs \<noteq> [] \<Longrightarrow> Math_min xs = Num (Min (set xs))"
proof (induction xs)
  case Nil then show ?case by simp
next
  case (Cons x xs)
  then show ?case by (cases "xs = []") (auto simp: min_def Min_insert)
qed

lemma find_first:
  assumes "\<exists>x\<in>set xs. P x"
  shows "\<exists>i<length xs. P (xs ! i) \<and> (\<forall>k<i. \<not> P (xs ! k)) \<and> find P xs = Some (xs ! i)"
proof -
  from assms have "find P xs \<noteq> None" by (auto simp: find_None_iff)
  then obtain x where "find P xs = Some x" by blast
  then show ?thesis unfolding find_Some_iff by blast
qed

lemma find_max_speed:
  assumes "rs \<noteq> []"
  shows "\<exists>i<length rs. speedMbps (rs ! i) = Max (set (map speedMbps rs))
           \<and> (\<forall>k<i. speedMbps (rs ! k) \<noteq> Max (set (map speedMbps rs)))
           \<and> find (\<lambda>r. Num (speedMbps r) = Math_max (map speedMbps rs)) rs = Some (rs ! i)"
proof -
  from assms have "Max (set (map speedMbps rs)) \<in> set (map speedMbps rs)"
    by (intro Max_in) auto
  then have "\<exists>r\<in>set rs. speedMbps r = Max (set (map speedMbps rs))" by auto
  from find_first[of rs "\<lambda>r. speedMbps r = Max (set (map speedMbps rs))", OF this] assms
  show ?thesis by (simp add: Math_max_Max)
qed

lemma find_min_speed:
  assumes "rs \<noteq> []"
  shows "\<exists>i<length rs. speedMbps (rs ! i) = Min (set (map speedMbps rs))
           \<and> (\<forall>k<i. speedMbps (rs ! k) \<noteq> Min (set (map speedMbps rs)))
           \<and> find (\<lambda>r. Num (speedMbps r) = Math_min (map speedMbps rs)) rs = Some (rs ! i)"
proof -
  from assms have "Min (set (map speedMbps rs)) \<in> set (map speedMbps rs)"
    by (intro Min_in) auto
  then have "\<exists>r\<in>set rs. speedMbps r = Min (set (map speedMbps rs))" by auto
  from find_first[of rs "\<lambda>r. speedMbps r = Min (set (map speedMbps rs))", OF this] assms
  show ?thesis by (simp add: Math_min_Min)
qed

lemma valid_all: "\<forall>r\<in>set rs. error r = None \<Longrightarrow> filter (\<lambda>r. \<not> truthy (error r)) rs = rs"
  by (induction rs) auto

lemma calculate_statistics_valid:
  assumes "filter (\<lambda>r. \<not> truthy (error r)) rs = vs" and "vs \<noteq> []"
  shows "\<exists>i j. i < length vs \<and> j < length vs
     \<and> speedMbps (vs ! i) = Max (set (map speedMbps vs)) \<and> (\<forall>k<i. speedMbps (vs ! k) \<noteq> Max (set (map speedMbps vs)))
     \<and> speedMbps (vs ! j) = Min (set (map speedMbps vs)) \<and> (\<forall>k<j. speedMbps (vs ! k) \<noteq> Min (set (map speedMbps vs)))
     \<and> calculate_statistics rs =
         Some \<lparr>averageSpeed = sum_list (map speedMbps vs) / real (length vs),
               maxSpeed = Num (Max (set (map speedMbps vs))),
               minSpeed = Num (Min (set (map speedMbps vs))),
               bestServer = Some (name (vs ! i)), worstServer = Some (name (vs ! j))\<rparr>"
proof -
  from find_max_speed[OF assms(2)] obtain i where i: "i < length vs"
    "speedMbps (vs ! i) = Max (set (map speedMbps vs))" "\<forall>k<i. speedMbps (vs ! k) \<noteq> Max (set (map speedMbps vs))"
    "find (\<lambda>r. Num (speedMbps r) = Math_max (map speedMbps vs)) vs = Some (vs ! i)" by blast
  from find_min_speed[OF assms(2)] obtain j where j: "j < length vs"
    "speedMbps (vs ! j) = Min (set (map speedMbps vs))" "\<forall>k<j. speedMbps (vs ! k) \<noteq> Min (set (map speedMbps vs))"
    "find (\<lambda>r. Num (speedMbps r) = Math_min (map speedMbps vs)) vs = Some (vs ! j)" by blast
  from assms i(4) j(4) have "calculate_statistics rs =
         Some \<lparr>averageSpeed = sum_list (map speedMbps vs) / real (length vs),
               maxSpeed = Num (Max (set (map speedMbps vs))),
               minSpeed = Num (Min (set (map speedMbps vs))),
               bestServer = Some (name (vs ! i)), worstServer = Some (name (vs ! j))\<rparr>"
    by (simp add: calculate_statistics_def Let_def average_sum Math_max_Max Math_min_Min)
  with i(1-3) j(1-3) show ?thesis by blast
qed

text \<open>
  Claim C3. For a non-empty list of results without error, the statistics are present:
  the average is the sum of the speeds over their number, the maximum and minimum are the
  greatest and least speed, and the best (worst) server is the name of the first result
  in the list whose speed is the maximum (minimum). For two such results with speeds 50
  and 200 this gives average 125, maximum 200 with the second result as best, minimum 50
  with the first as worst.
\<close>

theorem overall_statistics:
  "(results' \<noteq> [] \<and> (\<forall>r\<in>set results'. error r = None) \<longrightarrow>
      (\<exists>i j. i < length results' \<and> j < length results'
         \<and> speedMbps (results' ! i) = Max (set (map speedMbps results'))
         \<and> (\<forall>k<i. speedMbps (results' ! k) \<noteq> Max (set (map speedMbps results')))
         \<and> speedMbps (results' ! j) = Min (set (map speedMbps results'))
         \<and> (\<forall>k<j. speedMbps (results' ! k) \<noteq> Min (set (map speedMbps results')))
         \<and> calculate_statistics results' =
              Some \<lparr>averageSpeed = sum_list (map speedMbps results') / real (length results'),
                    maxSpeed = Num (Max (set (map speedMbps results'))),
                    minSpeed = Num (Min (set (map speedMbps results'))),
                    bestServer = Some (name (results' ! i)),
                    worstServer = Some (name (results' ! j))\<rparr>))
   \<and> (error r1 = None \<and> error r2 = None \<and> speedMbps r1 = 50 \<and> speedMbps r2 = 200 \<longrightarrow>
        calculate_statistics [r1, r2] =
          Some \<lparr>averageSpeed = 125, maxSpeed = Num 200, minSpeed = Num 50,
                bestServer = Some (name r2), worstServer = Some (name r1)\<rparr>)"
proof -
  have "\<exists>i j. i < length results' \<and> j < length results'
         \<and> speedMbps (results' ! i) = Max (set (map speedMbps results'))
         \<and> (\<forall>k<i. speedMbps (results' ! k) \<noteq> Max (set (map speedMbps results')))
         \<and> speedMbps (results' ! j) = Min (set (map speedMbps results'))
         \<and> (\<forall>k<j. speedMbps (results' ! k) \<noteq> Min (set (map speedMbps results')))
         \<and> calculate_statistics results' =
              Some \<lparr>averageSpeed = sum_list (map speedMbps results') / real (length results'),
                    maxSpeed = Num (Max (set (map speedMbps results'))),
                    minSpeed = Num (Min (set (map speedMbps results'))),
                    bestServer = Some (name (results' ! i)),
                    worstServer = Some (name (results' ! j))\<rparr>"
    if "results' \<noteq> []" and "\<forall>r\<in>set results'. error r = None"
    using calculate_statistics_valid[OF valid_all[OF that(2)] that(1)] .
  moreover have "calculate_statistics [r1, r2] =
          Some \<lparr>averageSpeed = 125, maxSpeed = Num 200, minSpeed = Num 50,
                bestServer = Some (name r2), worstServer = Some (name r1)\<rparr>"
    if "error r1 = None \<and> error r2 = None \<and> speedMbps r1 = 50 \<and> speedMbps r2 = 200"
    using that by (simp add: calculate_statistics_def average_def)
  ultimately show ?thesis by blast
qed

theorem overall_statistics_witness:
  "error (result_at ''CacheFly 10MB'' 10 50) = None
   \<and> speedMbps (result_at ''CacheFly 10MB'' 10 50) = 50
   \<and> error (result_at ''CacheFly 100MB'' 100 200) = None
   \<and> speedMbps (result_at ''CacheFly 100MB'' 100 200) = 200
   \<and> calculate_statistics [result_at ''CacheFly 10MB'' 10 50, result_at ''CacheFly 100MB'' 100 200] =
       Some \<lparr>averageSpeed = 125, maxSpeed = Num 200, minSpeed = Num 50,
             bestServer = Some ''CacheFly 100MB'', worstServer = Some ''CacheFly 10MB''\<rparr>
   \<and> map_option averageSpeed
        (calculate_statistics [result_at ''CacheFly 10MB'' 10 50, result_at ''CacheFly 100MB'' 100 200])
      = Some ((50 + 200) / 2)
   \<and> map_option maxSpeed
        (calculate_statistics [result_at ''CacheFly 10MB'' 10 50, result_at ''CacheFly 100MB'' 100 200])
      = Some (Num (Max {50, 200}))"
proof -
  let ?r1 = "result_at ''CacheFly 10MB'' 10 50" and ?r2 = "result_at ''CacheFly 100MB'' 100 200"
  have h: "error ?r1 = None \<and> error ?r2 = None \<and> speedMbps ?r1 = 50 \<and> speedMbps ?r2 = 200"
    by (simp add: result_at_def)
  have g: "[?r1, ?r2] \<noteq> [] \<and> (\<forall>r\<in>set [?r1, ?r2]. error r = None)"
    by (simp add: result_at_def)
  from overall_statistics[of "[?r1, ?r2]" ?r1 ?r2] h
  have c: "calculate_statistics [?r1, ?r2] =
          Some \<lparr>averageSpeed = 125, maxSpeed = Num 200, minSpeed = Num 50,
                bestServer = Some (name ?r2), worstServer = Some (name ?r1)\<rparr>" by blast
  from overall_statistics[of "[?r1, ?r2]" ?r1 ?r2] g
  obtain i j where "calculate_statistics [?r1, ?r2] =
              Some \<lparr>averageSpeed = sum_list (map speedMbps [?r1, ?r2]) / real (length [?r1, ?r2]),
                    maxSpeed = Num (Max (set (map speedMbps [?r1, ?r2]))),
                    minSpeed = Num (Min (set (map speedMbps [?r1, ?r2]))),
                    bestServer = Some (name ([?r1, ?r2] ! i)),
                    worstServer = Some (name ([?r1, ?r2] ! j))\<rparr>" by blast
  then have a: "map_option averageSpeed (calculate_statistics [?r1, ?r2]) = Some ((50 + 200) / 2)"
    and m: "map_option maxSpeed (calculate_statistics [?r1, ?r2]) = Some (Num (Max {50, 200}))"
    using h by (simp_all add: insert_commute)
  from h c a m show ?thesis by (simp add: result_at_def)
qed

text \<open>
  When every result has an error with a message that is not empty, no statistics are
  computed: the object stays without fields, and nothing is divided.
\<close>

lemma calculate_statistics_no_data:
  "\<forall>r\<in>set rs. truthy (error r) \<Longrightarrow> calculate_statistics rs = None"
  by (simp add: calculate_statistics_def)

text \<open>
  Claim C8. With no error-free result, aggregation is to return the no-data state. The
  filter \<^verbatim>\<open>results.filter(r => !r.error)\<close> tests truthiness, however, and the message
  of an error can be the empty string. A target whose request fails with such an error
  gets \<^verbatim>\<open>error: ""\<close>, passes the filter as if it had succeeded and enters the
  statistics with speed zero: the run below has no successful result, and it returns an
  average, a maximum, a minimum and a best and worst server.
\<close>

theorem run_counts_empty_message_as_success:
  "run False silent_failure (SpeedTest (Some [''cachefly'']) (Some [10]) None) 0 =
     Some (Inr \<lparr>results =
                  [\<lparr>name = ''CacheFly 10MB'', url = ''http://cachefly.cachefly.net/10mb.test'',
                    sizeMB = 10, ping = None, speedMbps = 0, speedMBps = 0, duration = 0,
                    error = Some ''''\<rparr>],
                statistics =
                  Some \<lparr>averageSpeed = 0, maxSpeed = Num 0, minSpeed = Num 0,
                        bestServer = Some ''CacheFly 10MB'', worstServer = Some ''CacheFly 10MB''\<rparr>\<rparr>,
           6)"
  by (simp add: run_def SpeedTest_def createAgent_def TEST_SERVERS_get_def TEST_SERVERS_def
      size_selected_def testServer_def pingTest_def makeRequest_silent_failure
      calculate_statistics_def average_def Let_def)

lemma displayStatistics_overall:
  "(calculate_statistics rs = None \<longrightarrow> displayStatistics rs = Inr None)
   \<and> (\<forall>s. calculate_statistics rs = Some s \<longrightarrow>
        (\<exists>d. displayStatistics rs = Inr (Some d)
           \<and> s = \<lparr>averageSpeed = avgSpeed d, maxSpeed = display.maxSpeed d,
                   minSpeed = display.minSpeed d, bestServer = Some (bestResult d),
                   worstServer = Some (worstResult d)\<rparr>))"
proof (cases "filter (\<lambda>r. \<not> truthy (error r)) rs = []")
  case True
  then show ?thesis by (simp add: calculate_statistics_def displayStatistics_def)
next
  case False
  define vs where "vs = filter (\<lambda>r. \<not> truthy (error r)) rs"
  with False have ne: "vs \<noteq> []" by simp
  from find_max_speed[OF ne] obtain i where
    i: "find (\<lambda>r. Num (speedMbps r) = Math_max (map speedMbps vs)) vs = Some (vs ! i)" by blast
  from find_min_speed[OF ne] obtain j where
    j: "find (\<lambda>r. Num (speedMbps r) = Math_min (map speedMbps vs)) vs = Some (vs ! j)" by blast
  from ne i j show ?thesis
    unfolding calculate_statistics_def displayStatistics_def vs_def[symmetric]
    by (simp add: Let_def)
qed

text \<open>
  Claim C2, as stated, fails: the object returned under \<^verbatim>\<open>statistics\<close> has no place
  for the averages by provider and by size, which only \<^verbatim>\<open>displayStatistics\<close>
  computes, for printing. Two runs over the same four targets return the same statistics
  object although their averages by provider and by size differ, so the object does not
  contain them.
\<close>

theorem statistics_omit_group_averages_counterexample:
  "map_option statistics (returned (run False (served load_A)
      (SpeedTest (Some [''cloudflare'', ''cachefly'']) None None) 0))
     = Some (Some \<lparr>averageSpeed = 125, maxSpeed = Num 200, minSpeed = Num 50,
                    bestServer = Some ''Cloudflare 10MB'', worstServer = Some ''CacheFly 100MB''\<rparr>)
   \<and> map_option statistics (returned (run False (served load_B)
      (SpeedTest (Some [''cloudflare'', ''cachefly'']) None None) 0))
     = Some (Some \<lparr>averageSpeed = 125, maxSpeed = Num 200, minSpeed = Num 50,
                    bestServer = Some ''Cloudflare 10MB'', worstServer = Some ''CacheFly 100MB''\<rparr>)
   \<and> map_option (displayStatistics \<circ> results) (returned (run False (served load_A)
      (SpeedTest (Some [''cloudflare'', ''cachefly'']) None None) 0))
     = Some (Inr (Some \<lparr>byProvider = [(''cloudflare'', 150, Some 1000), (''cachefly'', 100, Some 1000)],
                         bySize = [(''10MB'', 175), (''100MB'', 75)],
                         avgSpeed = 125, maxSpeed = Num 200, minSpeed = Num 50,
                         bestResult = ''Cloudflare 10MB'', worstResult = ''CacheFly 100MB''\<rparr>))
   \<and> map_option (displayStatistics \<circ> results) (returned (run False (served load_B)
      (SpeedTest (Some [''cloudflare'', ''cachefly'']) None None) 0))
     = Some (Inr (Some \<lparr>byProvider = [(''cloudflare'', 175, Some 1000), (''cachefly'', 75, Some 1000)],
                         bySize = [(''10MB'', 150), (''100MB'', 100)],
                         avgSpeed = 125, maxSpeed = Num 200, minSpeed = Num 50,
                         bestResult = ''Cloudflare 10MB'', worstResult = ''CacheFly 100MB''\<rparr>))"
  by (simp add: returned_def run_def SpeedTest_def createAgent_def TEST_SERVERS_get_def
      TEST_SERVERS_def Object_prototype_keys_def size_selected_def testServer_served
      calculate_statistics_def average_def Let_def load_A_def load_B_def displayStatistics_def average_by_provider_def
      average_by_size_def serverStats_of_def sizeStats_of_def provider_of_def show_nat.simps
      digit_def)

text \<open>
  Claim C2, amended. When the requests of the run settle and no requested key is
  inherited, the run resolves and its statistics object holds exactly the overall figures
  that \<^verbatim>\<open>displayStatistics\<close> computes from the same results, the average, maximum and
  minimum speed and the names of the best and worst server, and no field at all when no
  result passes the filter; the averages by provider and by size are not part of it.
\<close>

theorem run_statistics_overall_only:
  assumes "requests_settle net (createAgent installed (proxy opts) True)
             (requested_targets (servers opts) (sizes opts))"
    and "\<forall>key\<in>set (servers opts). key \<notin> set Object_prototype_keys"
  shows "\<exists>out now'. run installed net opts now = Some (Inr out, now')
     \<and> (case displayStatistics (results out) of
          Inl err \<Rightarrow> False
        | Inr None \<Rightarrow> statistics out = None
        | Inr (Some d) \<Rightarrow>
            statistics out =
              Some \<lparr>averageSpeed = avgSpeed d, maxSpeed = display.maxSpeed d,
                    minSpeed = display.minSpeed d, bestServer = Some (bestResult d),
                    worstServer = Some (worstResult d)\<rparr>)"
proof -
  from run_returns[OF assms(2,1), of now] obtain out now' where
    r: "run installed net opts now = Some (Inr out, now')"
    and s: "statistics out = calculate_statistics (results out)"
    by blast
  have "case displayStatistics (results out) of
          Inl err \<Rightarrow> False
        | Inr None \<Rightarrow> calculate_statistics (results out) = None
        | Inr (Some d) \<Rightarrow>
            calculate_statistics (results out) =
              Some \<lparr>averageSpeed = avgSpeed d, maxSpeed = display.maxSpeed d,
                    minSpeed = display.minSpeed d, bestServer = Some (bestResult d),
                    worstServer = Some (worstResult d)\<rparr>"
    using displayStatistics_overall[of "results out"]
    by (cases "calculate_statistics (results out)") auto
  with r s show ?thesis by (auto split: sum.splits option.splits)
qed

theorem run_statistics_overall_only_witness:
  "requests_settle (served load_A) None [cachefly100]
   \<and> map_option statistics (returned (run False (served load_A)
      (SpeedTest (Some [''cachefly'']) (Some [100]) None) 0))
     = Some (Some \<lparr>averageSpeed = 50, maxSpeed = Num 50, minSpeed = Num 50,
                    bestServer = Some ''CacheFly 100MB'', worstServer = Some ''CacheFly 100MB''\<rparr>)
   \<and> map_option (displayStatistics \<circ> results) (returned (run False (served load_A)
      (SpeedTest (Some [''cachefly'']) (Some [100]) None) 0))
     = Some (Inr (Some \<lparr>byProvider = [(''cachefly'', 50, Some 1000)],
                         bySize = [(''100MB'', 50)],
                         avgSpeed = 50, maxSpeed = Num 50, minSpeed = Num 50,
                         bestResult = ''CacheFly 100MB'', worstResult = ''CacheFly 100MB''\<rparr>))"
proof -
  let ?opts = "\<lparr>servers = [''cachefly''], sizes = Some [100], proxy = None\<rparr>"
  have o: "SpeedTest (Some [''cachefly'']) (Some [100]) None = ?opts"
    by (simp add: SpeedTest_def)
  have k: "\<forall>key\<in>set (servers ?opts). key \<notin> set Object_prototype_keys"
    by (simp add: Object_prototype_keys_def)
  have s: "requests_settle (served load_A) (createAgent False (proxy ?opts) True)
             (requested_targets (servers ?opts) (sizes ?opts))"
    by (rule requests_settle_served)
  have l: "requested_targets (servers ?opts) (sizes ?opts) = [cachefly100]"
    by (simp add: requested_targets_def TEST_SERVERS_def size_selected_def cachefly100_def)
  from run_statistics_overall_only[OF s k, where now = 0]
  obtain out now' where
    r: "run False (served load_A) ?opts 0 = Some (Inr out, now')"
    and d: "case displayStatistics (results out) of
          Inl err \<Rightarrow> False
        | Inr None \<Rightarrow> statistics out = None
        | Inr (Some d) \<Rightarrow>
            statistics out =
              Some \<lparr>averageSpeed = avgSpeed d, maxSpeed = display.maxSpeed d,
                    minSpeed = display.minSpeed d, bestServer = Some (bestResult d),
                    worstServer = Some (worstResult d)\<rparr>"
    by blast
  have e: "map_option (displayStatistics \<circ> results) (returned (run False (served load_A) ?opts 0))
     = Some (Inr (Some \<lparr>byProvider = [(''cachefly'', 50, Some 1000)],
                         bySize = [(''100MB'', 50)],
                         avgSpeed = 50, maxSpeed = Num 50, minSpeed = Num 50,
                         bestResult = ''CacheFly 100MB'', worstResult = ''CacheFly 100MB''\<rparr>))"
    by (simp add: returned_def run_def createAgent_def TEST_SERVERS_get_def TEST_SERVERS_def
      Object_prototype_keys_def size_selected_def testServer_served
      average_def Let_def load_A_def displayStatistics_def average_by_provider_def
      average_by_size_def serverStats_of_def sizeStats_of_def provider_of_def show_nat.simps
      digit_def)
  from r e d have "statistics out = Some \<lparr>averageSpeed = 50, maxSpeed = Num 50, minSpeed = Num 50,
                    bestServer = Some ''CacheFly 100MB'', worstServer = Some ''CacheFly 100MB''\<rparr>"
    by (simp add: returned_def)
  moreover from s l have "requests_settle (served load_A) None [cachefly100]"
    by (simp add: createAgent_def)
  ultimately show ?thesis using r e unfolding o by (simp add: returned_def)
qed


end
